theory Spec2Isabelle
  imports Main
begin

section \<open>Data model\<close>

text \<open>
  The linkman browser extension (src/linkman-extension, utils in src/unnamed/part_000)
  reconciles the browser's bookmark tree with a remote bookmark service. JavaScript
  values are modelled by their shape: a field that may be absent is an \<open>option\<close>, and
  the truthiness test the code applies to a string field is \<open>truthy\<close>.
\<close>

definition truthy :: "string option \<Rightarrow> bool" where
  "truthy v = (case v of None \<Rightarrow> False | Some s \<Rightarrow> s \<noteq> [])"

text \<open>\<open>v || d\<close> for a string-or-absent \<open>v\<close> and a string \<open>d\<close>.\<close>

definition or_else :: "string option \<Rightarrow> string \<Rightarrow> string" where
  "or_else v d = (case v of None \<Rightarrow> d | Some s \<Rightarrow> if s \<noteq> [] then s else d)"

text \<open>A chrome BookmarkTreeNode: id, title, optional url, optional children.\<close>

datatype node = Node (node_id: nat) (node_title: string)
  (node_url: "string option") (node_children: "node list option")

text \<open>A bookmark record of the remote service, as the code reads it: \<open>bm.url\<close>, \<open>bm.title\<close>.\<close>

record bookmark =
  url :: string
  title :: "string option"

text \<open>The entries of \<open>settings.extraHeaders\<close>: objects \<open>{key, value}\<close>.\<close>

record header =
  key :: string
  hvalue :: string

record settings =
  backendUrl :: "string option"
  apiKey :: "string option"
  autoSync :: bool
  extraHeaders :: "header list option"

text \<open>The JSON body of a \<open>POST /bookmarks\<close>.\<close>

record upsert =
  up_url :: "string option"
  up_title :: string
  up_tags :: "string list"

text \<open>
  The arguments of one \<open>fetch(url, options)\<close>: the headers object is a map from header
  name to value, the method is absent for a plain read.
\<close>

record request =
  req_url :: string
  req_method :: "string option"
  req_headers :: "string \<rightharpoonup> string"
  req_body :: "upsert option"

text \<open>
  What \<open>res.json()\<close> yields: it rejects on a malformed body, and the code tells a falsy
  value (\<open>null\<close>) from an array of records, the answer of \<open>GET /bookmarks/sync\<close> (spec
  section 6).
\<close>

datatype payload = Malformed | Null | Bookmarks "bookmark list"

record response =
  status :: int
  json :: payload

text \<open>\<open>res.ok\<close>: the status is in the range 200 to 299.\<close>

definition ok :: "response \<Rightarrow> bool" where
  "ok res = (200 \<le> status res \<and> status res \<le> 299)"

text \<open>One \<open>fetch\<close> either rejects (DNS, connection) or resolves to a response.\<close>

datatype outcome = Rejected | Resolved response

datatype error =
    ClientError int
  | ServerReturned int
  | NetworkFailure
  | FailedToFetch
  | SyntaxError
  | TypeError

datatype console_entry =
    RetryWarning int int error
  | AutoSyncFailed error
  | AutoSyncCompleted
  | ErrorImporting error
  | ErrorSyncing error

datatype status_msg =
    SetBackendUrlFirst
  | PermissionMissing
  | NoNativeBookmarks
  | Imported nat nat
  | FailedToImport
  | NoBookmarksOnBackend
  | Synced nat
  | FailedToSync

datatype bookmark_op = Create string string | Remove nat

text \<open>
  Everything the code reads or changes outside its own variables: the bookmark tree of
  the browser with the calls made to it, the fetches issued, the \<open>setTimeout\<close> waits,
  the console and the status line of the options page (\<open>showSyncStatus(msg, isError)\<close>).
\<close>

record world =
  tree :: "node list"
  fresh :: nat
  bookmark_ops :: "bookmark_op list"
  calls :: "request list"
  timeouts :: "int list"
  console :: "console_entry list"
  syncStatus :: "(status_msg \<times> bool) list"

text \<open>
  The platform the code runs on: the network answers the n-th fetch of a run (counted
  over all fetches issued so far) to a given request; \<open>new URL(path, base)\<close> yields the
  resolved address or throws a TypeError (\<open>None\<close>); \<open>chrome.bookmarks\<close> is present or
  not.
\<close>

record env =
  net :: "nat \<Rightarrow> request \<Rightarrow> outcome"
  new_URL :: "string \<Rightarrow> string \<Rightarrow> string option"
  has_bookmarks :: bool

section \<open>Transport (src/unnamed/part_000)\<close>

definition fetch :: "env \<Rightarrow> request \<Rightarrow> world \<Rightarrow> outcome \<times> world" where
  "fetch e req w = (net e (length (calls w)) req, w\<lparr>calls := calls w @ [req]\<rparr>)"

definition setTimeout :: "int \<Rightarrow> world \<Rightarrow> world" where
  "setTimeout ms w = w\<lparr>timeouts := timeouts w @ [ms]\<rparr>"

definition console_add :: "console_entry \<Rightarrow> world \<Rightarrow> world" where
  "console_add c w = w\<lparr>console := console w @ [c]\<rparr>"

text \<open>The body of the \<open>try\<close> block of \<open>fetchWithRetry\<close>: the response, or the error thrown.\<close>

definition attempt :: "outcome \<Rightarrow> error + response" where
  "attempt out =
     (case out of
        Rejected \<Rightarrow> Inl NetworkFailure
      | Resolved res \<Rightarrow>
          if \<not> ok res then
            (if status res \<ge> 400 \<and> status res < 500 \<and> status res \<noteq> 429
             then Inl (ClientError (status res))
             else Inl (ServerReturned (status res)))
          else Inr res)"

text \<open>
  \<open>fetchWithRetry(url, options, retries, backoff)\<close>. The \<open>catch\<close> block receives every
  error thrown in the \<open>try\<close> block, whichever \<open>throw\<close> raised it.
\<close>

function fetchWithRetry ::
  "env \<Rightarrow> request \<Rightarrow> int \<Rightarrow> int \<Rightarrow> world \<Rightarrow> (error + response) \<times> world" where
  "fetchWithRetry e req retries backoff w =
     (case fetch e req w of
        (out, w1) \<Rightarrow>
          (case attempt out of
             Inr res \<Rightarrow> (Inr res, w1)
           | Inl err \<Rightarrow>
               if retries > 0
               then fetchWithRetry e req (retries - 1) (backoff * 2)
                      (setTimeout backoff (console_add (RetryWarning backoff retries err) w1))
               else (Inl err, w1)))"
  by pat_completeness auto
termination
  by (relation "measure (\<lambda>(e, req, retries, backoff, w). nat retries)") auto

declare fetchWithRetry.simps [simp del]

text \<open>The call with the default parameters \<open>retries = 3\<close>, \<open>backoff = 1000\<close>.\<close>

definition fetchWithRetry_default :: "env \<Rightarrow> request \<Rightarrow> world \<Rightarrow> (error + response) \<times> world" where
  "fetchWithRetry_default e req w = fetchWithRetry e req 3 1000 w"

text \<open>
  \<open>obj[k] = v\<close> on an object created by an object literal, for a string \<open>v\<close>: the
  assignment creates or replaces the own property \<open>k\<close>, except for the key \<open>__proto__\<close>,
  which reaches the setter inherited from \<open>Object.prototype\<close>; that setter ignores a value
  that is neither an object nor null, so no property is created.
\<close>

definition set_property :: "string \<Rightarrow> string \<Rightarrow> (string \<rightharpoonup> string) \<Rightarrow> (string \<rightharpoonup> string)" where
  "set_property k v obj = (if k = ''__proto__'' then obj else obj(k \<mapsto> v))"

text \<open>\<open>buildHeaders(settings, isJson)\<close>; \<open>forEach\<close> over the extra headers is a fold.\<close>

definition add_header :: "header \<Rightarrow> (string \<rightharpoonup> string) \<Rightarrow> (string \<rightharpoonup> string)" where
  "add_header h headers =
     (if key h \<noteq> [] then set_property (key h) (hvalue h) headers else headers)"

definition buildHeaders :: "settings \<Rightarrow> bool \<Rightarrow> (string \<rightharpoonup> string)" where
  "buildHeaders st isJson =
     (let headers = [''Authorization'' \<mapsto> ''Bearer '' @ or_else (apiKey st) ''''];
          headers = (if isJson then set_property ''Content-Type'' ''application/json'' headers
                     else set_property ''Accept'' ''application/json'' headers)
      in case extraHeaders st of
           None \<Rightarrow> headers
         | Some hs \<Rightarrow> fold add_header hs headers)"

text \<open>
  \<open>new URL(path, settings.backendUrl).toString()\<close>: with an undefined base a relative
  path does not parse and the constructor throws.
\<close>

definition resolve :: "env \<Rightarrow> string \<Rightarrow> string option \<Rightarrow> string option" where
  "resolve e path base = (case base of None \<Rightarrow> None | Some b \<Rightarrow> new_URL e path b)"

section \<open>The local bookmark store\<close>

text \<open>
  \<open>traverseNodes\<close> is written three times in the source (background.js 36-46,
  options.js 148-157 and 233-242) with the same walk: depth first, a node with a truthy
  \<open>url\<close> is emitted, a node with \<open>children\<close> is descended into. The copies differ in what
  they keep of an emitted node (the node, its title and url, its url); the model keeps
  the node and projects.
\<close>

fun traverseNode :: "node \<Rightarrow> node list" and traverseNodes :: "node list \<Rightarrow> node list" where
  "traverseNode (Node i t u c) =
     (if truthy u then [Node i t u c] else []) @
     (case c of None \<Rightarrow> [] | Some cs \<Rightarrow> traverseNodes cs)"
| "traverseNodes [] = []"
| "traverseNodes (n # ns) = traverseNode n @ traverseNodes ns"

text \<open>
  \<open>chrome.bookmarks\<close> is the browser's, not the repository's. It is modelled as a reliable
  store (spec section 6): \<open>getTree\<close> returns the current forest, \<open>create\<close> adds a leaf
  with the given title and url under a fresh id, \<open>remove\<close> deletes the nodes with the
  given id. Both mutations are also recorded in \<open>bookmark_ops\<close>. Where the new leaf is
  placed does not matter to the code, which only ever reads the pre-order list of leaves.
\<close>

definition getTree :: "world \<Rightarrow> node list" where
  "getTree w = tree w"

definition bookmarks_create :: "string \<Rightarrow> string \<Rightarrow> world \<Rightarrow> world" where
  "bookmarks_create t u w =
     w\<lparr>tree := tree w @ [Node (fresh w) t (Some u) None],
       fresh := Suc (fresh w),
       bookmark_ops := bookmark_ops w @ [Create t u]\<rparr>"

fun remove_node :: "nat \<Rightarrow> node \<Rightarrow> node" and remove_nodes :: "nat \<Rightarrow> node list \<Rightarrow> node list" where
  "remove_node i (Node j t u c) =
     Node j t u (case c of None \<Rightarrow> None | Some cs \<Rightarrow> Some (remove_nodes i cs))"
| "remove_nodes i [] = []"
| "remove_nodes i (n # ns) =
     (if node_id n = i then remove_nodes i ns else remove_node i n # remove_nodes i ns)"

definition bookmarks_remove :: "nat \<Rightarrow> world \<Rightarrow> world" where
  "bookmarks_remove i w =
     w\<lparr>tree := remove_nodes i (tree w), bookmark_ops := bookmark_ops w @ [Remove i]\<rparr>"

definition showSyncStatus :: "status_msg \<Rightarrow> bool \<Rightarrow> world \<Rightarrow> world" where
  "showSyncStatus msg isError w = w\<lparr>syncStatus := syncStatus w @ [(msg, isError)]\<rparr>"

section \<open>Mirror: performAutoSync (background.js)\<close>

text \<open>The headers object built inline at background.js 10-21.\<close>

definition autoSync_headers :: "settings \<Rightarrow> (string \<rightharpoonup> string)" where
  "autoSync_headers st =
     (let headers = [''Authorization'' \<mapsto> ''Bearer '' @ or_else (apiKey st) '''',
                     ''Accept'' \<mapsto> ''application/json'']
      in case extraHeaders st of
           None \<Rightarrow> headers
         | Some hs \<Rightarrow> fold add_header hs headers)"

definition sync_request :: "string \<Rightarrow> (string \<rightharpoonup> string) \<Rightarrow> request" where
  "sync_request u headers =
     \<lparr>req_url = u, req_method = None, req_headers = headers, req_body = None\<rparr>"

text \<open>
  The two loops of the apply step. \<open>nativeUrls\<close> and \<open>backendUrls\<close> are JavaScript Sets of
  the values read from \<open>node.url\<close> and \<open>b.url\<close>; both are computed before the loop that
  uses them and not updated inside it.
\<close>

fun create_loop :: "string option set \<Rightarrow> bookmark list \<Rightarrow> world \<Rightarrow> world" where
  "create_loop nativeUrls [] w = w"
| "create_loop nativeUrls (bm # bms) w =
     (if Some (url bm) \<notin> nativeUrls
      then create_loop nativeUrls bms
             (bookmarks_create (or_else (title bm) (url bm)) (url bm) w)
      else create_loop nativeUrls bms w)"

fun remove_loop :: "string option set \<Rightarrow> node list \<Rightarrow> world \<Rightarrow> world" where
  "remove_loop backendUrls [] w = w"
| "remove_loop backendUrls (n # ns) w =
     (if node_url n \<notin> backendUrls
      then remove_loop backendUrls ns (bookmarks_remove (node_id n) w)
      else remove_loop backendUrls ns w)"

text \<open>
  The plan the two loops carry out, named as in the specification: the remote records
  to create locally and the local leaves to delete.
\<close>

definition toCreateLocally :: "bookmark list \<Rightarrow> node list \<Rightarrow> bookmark list" where
  "toCreateLocally backendBookmarks bookmarkTreeNodes =
     [bm \<leftarrow> backendBookmarks.
        Some (url bm) \<notin> set (map node_url (traverseNodes bookmarkTreeNodes))]"

definition toDeleteLocally :: "bookmark list \<Rightarrow> node list \<Rightarrow> node list" where
  "toDeleteLocally backendBookmarks bookmarkTreeNodes =
     [n \<leftarrow> traverseNodes bookmarkTreeNodes.
        node_url n \<notin> set (map (\<lambda>b. Some (url b)) backendBookmarks)]"

text \<open>The body of the \<open>try\<close> block: \<open>Inl\<close> is the error that reaches the \<open>catch\<close>.\<close>

definition autoSync_try :: "env \<Rightarrow> settings \<Rightarrow> world \<Rightarrow> (error + unit) \<times> world" where
  "autoSync_try e st w =
     (case resolve e ''/bookmarks/sync'' (backendUrl st) of
        None \<Rightarrow> (Inl TypeError, w)
      | Some u \<Rightarrow>
          (case fetchWithRetry_default e (sync_request u (autoSync_headers st)) w of
             (Inl err, w1) \<Rightarrow> (Inl err, w1)
           | (Inr res, w1) \<Rightarrow>
               if \<not> ok res then (Inl FailedToFetch, w1)
               else
                 (case json res of
                    Malformed \<Rightarrow> (Inl SyntaxError, w1)
                  | Null \<Rightarrow> (Inr (), w1)
                  | Bookmarks backendBookmarks \<Rightarrow>
                      (let bookmarkTreeNodes = getTree w1;
                           nativeBookmarks = traverseNodes bookmarkTreeNodes;
                           nativeUrls = set (map node_url nativeBookmarks);
                           w2 = create_loop nativeUrls backendBookmarks w1;
                           backendUrls = set (map (\<lambda>b. Some (url b)) backendBookmarks);
                           w3 = remove_loop backendUrls nativeBookmarks w2
                       in (Inr (), console_add AutoSyncCompleted w3)))))"

definition performAutoSync :: "env \<Rightarrow> settings \<Rightarrow> world \<Rightarrow> world" where
  "performAutoSync e st w =
     (if \<not> autoSync st \<or> \<not> truthy (backendUrl st) \<or> \<not> has_bookmarks e then w
      else
        (case autoSync_try e st w of
           (Inl err, w') \<Rightarrow> console_add (AutoSyncFailed err) w'
         | (Inr _, w') \<Rightarrow> w'))"

section \<open>Pull-Merge: the syncToNativeBtn click handler (options.js)\<close>

fun add_loop :: "string option set \<Rightarrow> bookmark list \<Rightarrow> nat \<times> world \<Rightarrow> nat \<times> world" where
  "add_loop nativeUrls [] acc = acc"
| "add_loop nativeUrls (bm # bms) (addCount, w) =
     (if Some (url bm) \<notin> nativeUrls
      then add_loop nativeUrls bms
             (addCount + 1, bookmarks_create (or_else (title bm) (url bm)) (url bm) w)
      else add_loop nativeUrls bms (addCount, w))"

definition syncToNative_try :: "env \<Rightarrow> settings \<Rightarrow> world \<Rightarrow> (error + unit) \<times> world" where
  "syncToNative_try e st w =
     (case resolve e ''/bookmarks/sync'' (backendUrl st) of
        None \<Rightarrow> (Inl TypeError, w)
      | Some u \<Rightarrow>
          (case fetchWithRetry_default e (sync_request u (buildHeaders st False)) w of
             (Inl err, w1) \<Rightarrow> (Inl err, w1)
           | (Inr res, w1) \<Rightarrow>
               if \<not> ok res then (Inl FailedToFetch, w1)
               else
                 (case json res of
                    Malformed \<Rightarrow> (Inl SyntaxError, w1)
                  | Null \<Rightarrow> (Inr (), showSyncStatus NoBookmarksOnBackend False w1)
                  | Bookmarks backendBookmarks \<Rightarrow>
                      if length backendBookmarks = 0
                      then (Inr (), showSyncStatus NoBookmarksOnBackend False w1)
                      else
                        (let bookmarkTreeNodes = getTree w1;
                             nativeUrls = set (map node_url (traverseNodes bookmarkTreeNodes))
                         in case add_loop nativeUrls backendBookmarks (0, w1) of
                              (addCount, w2) \<Rightarrow>
                                (Inr (), showSyncStatus (Synced addCount) False w2)))))"

definition syncToNative :: "env \<Rightarrow> settings \<Rightarrow> world \<Rightarrow> world" where
  "syncToNative e st w =
     (if \<not> truthy (backendUrl st) then showSyncStatus SetBackendUrlFirst True w
      else if \<not> has_bookmarks e then showSyncStatus PermissionMissing True w
      else
        (case syncToNative_try e st w of
           (Inl err, w') \<Rightarrow> showSyncStatus FailedToSync True (console_add (ErrorSyncing err) w')
         | (Inr _, w') \<Rightarrow> w'))"

section \<open>Push: the importBookmarksBtn click handler (options.js)\<close>

definition currentTags :: "string list" where
  "currentTags = [''imported'']"

text \<open>The fetch arguments of the upsert of one flattened bookmark \<open>{title, url}\<close>.\<close>

definition upsert_request :: "string \<Rightarrow> settings \<Rightarrow> node \<Rightarrow> request" where
  "upsert_request u st bm =
     \<lparr>req_url = u, req_method = Some ''POST'', req_headers = buildHeaders st True,
      req_body = Some \<lparr>up_url = node_url bm, up_title = node_title bm, up_tags = currentTags\<rparr>\<rparr>"

text \<open>
  The loop over \<open>flatBookmarks\<close>. Its inner \<open>try\<close> covers \<open>new URL\<close> as well as the fetch,
  and its \<open>catch\<close> only counts.
\<close>

fun import_loop :: "env \<Rightarrow> settings \<Rightarrow> node list \<Rightarrow> nat \<times> nat \<times> world \<Rightarrow> nat \<times> nat \<times> world" where
  "import_loop e st [] acc = acc"
| "import_loop e st (bm # bms) (successCount, failCount, w) =
     (case resolve e ''/bookmarks'' (backendUrl st) of
        None \<Rightarrow> import_loop e st bms (successCount, failCount + 1, w)
      | Some u \<Rightarrow>
          (case fetchWithRetry_default e (upsert_request u st bm) w of
             (Inr res, w1) \<Rightarrow>
               if ok res then import_loop e st bms (successCount + 1, failCount, w1)
               else import_loop e st bms (successCount, failCount + 1, w1)
           | (Inl err, w1) \<Rightarrow> import_loop e st bms (successCount, failCount + 1, w1)))"

text \<open>
  Nothing between the outer \<open>try\<close> and the loop throws in this model (the store is
  reliable), so the outer \<open>catch\<close> has no branch here.
\<close>

definition importBookmarks :: "env \<Rightarrow> settings \<Rightarrow> world \<Rightarrow> world" where
  "importBookmarks e st w =
     (if \<not> truthy (backendUrl st) then showSyncStatus SetBackendUrlFirst True w
      else if \<not> has_bookmarks e then showSyncStatus PermissionMissing True w
      else
        (let flatBookmarks = traverseNodes (getTree w)
         in if length flatBookmarks = 0 then showSyncStatus NoNativeBookmarks False w
            else
              (case import_loop e st flatBookmarks (0, 0, w) of
                 (successCount, failCount, w') \<Rightarrow>
                   showSyncStatus (Imported successCount failCount) False w')))"


section \<open>Other calls through buildHeaders (popup.js, results.js)\<close>

text \<open>
  The fetch arguments of the two calls of buildHeaders outside the three policies that
  change remote state: the \<open>DELETE\<close> of popup.js 235-238 and results.js 165-168, and the
  reprocess \<open>POST\<close> of results.js 137-140. Both pass \<open>buildHeaders(settings)\<close>, with
  \<open>isJson\<close> left at its default.
\<close>

definition delete_request :: "string \<Rightarrow> settings \<Rightarrow> request" where
  "delete_request u st =
     \<lparr>req_url = u, req_method = Some ''DELETE'', req_headers = buildHeaders st False,
      req_body = None\<rparr>"

definition reprocess_request :: "string \<Rightarrow> settings \<Rightarrow> request" where
  "reprocess_request u st =
     \<lparr>req_url = u, req_method = Some ''POST'', req_headers = buildHeaders st False,
      req_body = None\<rparr>"

section \<open>Scheduler: startSync, stopSync and the interval (background.js)\<close>

text \<open>
  \<open>syncIntervalId\<close> is the global of background.js. The runtime side is the list of
  interval timers that are registered and not cleared, and the next handle
  \<open>setInterval\<close> hands out. \<open>performAutoSync\<close> is asynchronous: a call returns at once and
  its body finishes later, after its awaits; \<open>in_flight\<close> counts the calls that passed
  the guard and have not finished. Nothing in the source reads such a count.
\<close>

record scheduler =
  syncIntervalId :: "nat option"
  intervals :: "nat list"
  next_handle :: nat
  in_flight :: nat

definition clearInterval :: "nat \<Rightarrow> scheduler \<Rightarrow> scheduler" where
  "clearInterval h s = s\<lparr>intervals := removeAll h (intervals s)\<rparr>"

definition setInterval :: "scheduler \<Rightarrow> nat \<times> scheduler" where
  "setInterval s =
     (next_handle s,
      s\<lparr>intervals := intervals s @ [next_handle s], next_handle := Suc (next_handle s)\<rparr>)"

text \<open>A call of \<open>performAutoSync\<close>, up to its first await, and the end of a pass.\<close>

definition performAutoSync_call :: "env \<Rightarrow> settings \<Rightarrow> scheduler \<Rightarrow> scheduler" where
  "performAutoSync_call e st s =
     (if \<not> autoSync st \<or> \<not> truthy (backendUrl st) \<or> \<not> has_bookmarks e then s
      else s\<lparr>in_flight := Suc (in_flight s)\<rparr>)"

definition performAutoSync_done :: "scheduler \<Rightarrow> scheduler" where
  "performAutoSync_done s = s\<lparr>in_flight := in_flight s - 1\<rparr>"

text \<open>\<open>if (syncIntervalId)\<close>: the handle is neither null nor 0.\<close>

definition clear_current :: "scheduler \<Rightarrow> scheduler" where
  "clear_current s =
     (case syncIntervalId s of
        None \<Rightarrow> s
      | Some h \<Rightarrow> if h \<noteq> 0 then clearInterval h s else s)"

definition startSync :: "env \<Rightarrow> settings \<Rightarrow> scheduler \<Rightarrow> scheduler" where
  "startSync e st s =
     (case setInterval (clear_current s) of
        (h, s1) \<Rightarrow> performAutoSync_call e st (s1\<lparr>syncIntervalId := Some h\<rparr>))"

definition stopSync :: "scheduler \<Rightarrow> scheduler" where
  "stopSync s = (clear_current s)\<lparr>syncIntervalId := None\<rparr>"

text \<open>The interval with handle \<open>h\<close> fires: its callback is \<open>performAutoSync\<close> itself.\<close>

definition tick :: "env \<Rightarrow> settings \<Rightarrow> nat \<Rightarrow> scheduler \<Rightarrow> scheduler" where
  "tick e st h s = (if h \<in> set (intervals s) then performAutoSync_call e st s else s)"

section \<open>Notions used in the statements\<close>

text \<open>The nodes that a run of creates adds to the store, with ids from \<open>i\<close> on.\<close>

fun created :: "nat \<Rightarrow> bookmark list \<Rightarrow> node list" where
  "created i [] = []"
| "created i (bm # bms) =
     Node i (or_else (title bm) (url bm)) (Some (url bm)) None # created (Suc i) bms"

text \<open>The configured extra headers, none when the setting is absent.\<close>

definition extras :: "settings \<Rightarrow> header list" where
  "extras st = (case extraHeaders st of None \<Rightarrow> [] | Some hs \<Rightarrow> hs)"

text \<open>A key under which the loop over the extra headers sets a property.\<close>

definition settable :: "string \<Rightarrow> bool" where
  "settable k = (k \<noteq> [] \<and> k \<noteq> ''__proto__'')"

text \<open>
  The extra headers as a lookup table in which, of two entries with the same key, the one
  configured later is found first; entries with an empty key or the key \<open>__proto__\<close> are
  left out.
\<close>

definition extra_table :: "settings \<Rightarrow> (string \<rightharpoonup> string)" where
  "extra_table st =
     map_of (rev (map (\<lambda>h. (key h, hvalue h)) [h \<leftarrow> extras st. settable (key h)]))"

text \<open>
  The runtime holds at most the interval that \<open>syncIntervalId\<close> names, and handles are
  positive and below the next one to be handed out.
\<close>

definition single_timer :: "scheduler \<Rightarrow> bool" where
  "single_timer s =
     (0 < next_handle s \<and>
      (case syncIntervalId s of
         None \<Rightarrow> intervals s = []
       | Some h \<Rightarrow> intervals s = [h] \<and> 0 < h \<and> h < next_handle s))"

section \<open>Concrete inputs\<close>

definition empty_world :: world where
  "empty_world = \<lparr>tree = [], fresh = 0, bookmark_ops = [], calls = [], timeouts = [],
     console = [], syncStatus = []\<rparr>"

text \<open>
  A browser tree: the root with the bookmarks bar, holding the leaves \<open>http://y\<close> and
  \<open>http://z\<close>, and an empty second folder.
\<close>

definition local_world :: world where
  "local_world = empty_world\<lparr>tree :=
       [Node 0 [] None (Some
          [Node 1 ''Bookmarks bar'' None (Some
             [Node 3 ''Y'' (Some ''http://y'') None,
              Node 4 ''Z'' (Some ''http://z'') None]),
           Node 2 ''Other bookmarks'' None (Some [])])],
     fresh := 5\<rparr>"

definition remote_xy :: "bookmark list" where
  "remote_xy = [\<lparr>url = ''http://x'', title = None\<rparr>, \<lparr>url = ''http://y'', title = Some ''Y''\<rparr>]"

definition base_settings :: settings where
  "base_settings = \<lparr>backendUrl = Some ''http://localhost:3000'', apiKey = Some ''k'',
     autoSync = True, extraHeaders = None\<rparr>"

text \<open>A network that answers the n-th fetch with the n-th status of a list, then rejects.\<close>

definition scripted :: "int list \<Rightarrow> env" where
  "scripted codes =
     \<lparr>net = (\<lambda>n req. if n < length codes
                      then Resolved \<lparr>status = codes ! n, json = Bookmarks []\<rparr>
                      else Rejected),
      new_URL = (\<lambda>path base. Some (base @ path)), has_bookmarks = True\<rparr>"

text \<open>A remote service that answers every fetch with status 200 and a given collection.\<close>

definition serving :: "payload \<Rightarrow> env" where
  "serving body =
     \<lparr>net = (\<lambda>n req. Resolved \<lparr>status = 200, json = body\<rparr>),
      new_URL = (\<lambda>path base. Some (base @ path)), has_bookmarks = True\<rparr>"

text \<open>A network on which every fetch rejects.\<close>

definition offline :: env where
  "offline =
     \<lparr>net = (\<lambda>n req. Rejected),
      new_URL = (\<lambda>path base. Some (base @ path)), has_bookmarks = True\<rparr>"

definition get_request :: request where
  "get_request = sync_request ''http://localhost:3000/bookmarks/sync'' Map.empty"

text \<open>A remote collection whose only record has an empty URL.\<close>

definition nameless_remote :: "bookmark list" where
  "nameless_remote = [\<lparr>url = [], title = Some ''t''\<rparr>]"



definition unset_settings :: settings where
  "unset_settings = base_settings\<lparr>backendUrl := None\<rparr>"

text \<open>
  Settings whose extra headers name \<open>Authorization\<close>, repeat a key and hold an entry with an
  empty key and one with the key \<open>__proto__\<close>.
\<close>

definition override_settings :: settings where
  "override_settings = base_settings\<lparr>extraHeaders :=
     Some [\<lparr>key = ''Authorization'', hvalue = ''Basic abc''\<rparr>,
           \<lparr>key = ''X-Trace'', hvalue = ''1''\<rparr>,
           \<lparr>key = [], hvalue = ''ignored''\<rparr>,
           \<lparr>key = ''X-Trace'', hvalue = ''2''\<rparr>,
           \<lparr>key = ''__proto__'', hvalue = ''dropped''\<rparr>]\<rparr>"

text \<open>The scheduler before the first \<open>startSync\<close>: no interval, no pass.\<close>

definition idle :: scheduler where
  "idle = \<lparr>syncIntervalId = None, intervals = [], next_handle = 1, in_flight = 0\<rparr>"

text \<open>A scheduler with the interval 1 registered and one pass in flight.\<close>

definition busy :: scheduler where
  "busy = \<lparr>syncIntervalId = Some 1, intervals = [1], next_handle = 2, in_flight = 1\<rparr>"

section \<open>The transport: facts\<close>

lemma fetchWithRetry_ok:
  "attempt (net e (length (calls w)) req) = Inr res \<Longrightarrow>
   fetchWithRetry e req r b w = (Inr res, w\<lparr>calls := calls w @ [req]\<rparr>)"
  by (subst fetchWithRetry.simps) (simp add: fetch_def)

lemma fetchWithRetry_retry:
  "attempt (net e (length (calls w)) req) = Inl err \<Longrightarrow> 0 < r \<Longrightarrow>
   fetchWithRetry e req r b w =
     fetchWithRetry e req (r - 1) (b * 2)
       (setTimeout b (console_add (RetryWarning b r err) (w\<lparr>calls := calls w @ [req]\<rparr>)))"
  by (subst fetchWithRetry.simps) (simp add: fetch_def)

lemma fetchWithRetry_exhausted:
  "attempt (net e (length (calls w)) req) = Inl err \<Longrightarrow> \<not> 0 < r \<Longrightarrow>
   fetchWithRetry e req r b w = (Inl err, w\<lparr>calls := calls w @ [req]\<rparr>)"
  by (subst fetchWithRetry.simps) (simp add: fetch_def)

lemma attempt_503: "status r = 503 \<Longrightarrow> attempt (Resolved r) = Inl (ServerReturned 503)"
  by (simp add: attempt_def ok_def)

lemma attempt_ok: "ok r \<Longrightarrow> attempt (Resolved r) = Inr r"
  by (simp add: attempt_def)

lemma attempt_Inr_ok: "attempt out = Inr res \<Longrightarrow> ok res"
  by (auto simp: attempt_def split: outcome.splits if_splits)

text \<open>The transport touches the network log, the timers and the console only.\<close>

lemma fetchWithRetry_store:
  "tree (snd (fetchWithRetry e req r b w)) = tree w \<and>
   fresh (snd (fetchWithRetry e req r b w)) = fresh w \<and>
   bookmark_ops (snd (fetchWithRetry e req r b w)) = bookmark_ops w \<and>
   syncStatus (snd (fetchWithRetry e req r b w)) = syncStatus w"
proof (induction e req r b w rule: fetchWithRetry.induct)
  case (1 e req retries backoff w)
  show ?case
  proof (cases "attempt (net e (length (calls w)) req)")
    case (Inr res)
    then show ?thesis by (simp add: fetchWithRetry_ok)
  next
    case (Inl err)
    show ?thesis
    proof (cases "0 < retries")
      case True
      have "fetch e req w = (net e (length (calls w)) req, w\<lparr>calls := calls w @ [req]\<rparr>)"
        by (simp add: fetch_def)
      from "1.IH" [OF this [symmetric] Inl True]
      show ?thesis
        by (simp add: fetchWithRetry_retry [OF Inl True] setTimeout_def console_add_def)
    next
      case False
      then show ?thesis by (simp add: fetchWithRetry_exhausted [OF Inl])
    qed
  qed
qed

text \<open>A response that the transport returns has \<open>res.ok\<close>.\<close>

lemma fetchWithRetry_Inr_ok:
  "fst (fetchWithRetry e req r b w) = Inr res \<Longrightarrow> ok res"
proof (induction e req r b w rule: fetchWithRetry.induct)
  case (1 e req retries backoff w)
  show ?case
  proof (cases "attempt (net e (length (calls w)) req)")
    case (Inr res')
    with "1.prems" show ?thesis by (auto simp: fetchWithRetry_ok dest: attempt_Inr_ok)
  next
    case (Inl err)
    show ?thesis
    proof (cases "0 < retries")
      case True
      have "fetch e req w = (net e (length (calls w)) req, w\<lparr>calls := calls w @ [req]\<rparr>)"
        by (simp add: fetch_def)
      from "1.IH" [OF this [symmetric] Inl True] "1.prems"
      show ?thesis by (simp add: fetchWithRetry_retry [OF Inl True])
    next
      case False
      with "1.prems" show ?thesis by (simp add: fetchWithRetry_exhausted [OF Inl])
    qed
  qed
qed

text \<open>One call of the transport issues between 1 and retries + 1 fetches of the same request.\<close>

lemma fetchWithRetry_calls:
  "\<exists>k. 1 \<le> k \<and> k \<le> nat r + 1 \<and>
       calls (snd (fetchWithRetry e req r b w)) = calls w @ replicate k req"
proof (induction e req r b w rule: fetchWithRetry.induct)
  case (1 e req retries backoff w)
  show ?case
  proof (cases "attempt (net e (length (calls w)) req)")
    case (Inr res)
    then have "calls (snd (fetchWithRetry e req retries backoff w)) = calls w @ replicate 1 req"
      by (simp add: fetchWithRetry_ok)
    then show ?thesis by (intro exI [of _ 1]) simp
  next
    case (Inl err)
    show ?thesis
    proof (cases "0 < retries")
      case True
      have "fetch e req w = (net e (length (calls w)) req, w\<lparr>calls := calls w @ [req]\<rparr>)"
        by (simp add: fetch_def)
      from "1.IH" [OF this [symmetric] Inl True]
      obtain k where k: "1 \<le> k" "k \<le> nat (retries - 1) + 1"
        "calls (snd (fetchWithRetry e req (retries - 1) (backoff * 2)
           (setTimeout backoff (console_add (RetryWarning backoff retries err)
              (w\<lparr>calls := calls w @ [req]\<rparr>))))) =
         calls (setTimeout backoff (console_add (RetryWarning backoff retries err)
              (w\<lparr>calls := calls w @ [req]\<rparr>))) @ replicate k req"
        by blast
      have "calls (snd (fetchWithRetry e req retries backoff w)) = calls w @ replicate (Suc k) req"
        using k(3) by (simp add: fetchWithRetry_retry [OF Inl True] setTimeout_def console_add_def
            replicate_append_same)
      moreover have "Suc k \<le> nat retries + 1" using k(2) True by linarith
      ultimately show ?thesis by (intro exI [of _ "Suc k"]) simp
    next
      case False
      then have "calls (snd (fetchWithRetry e req retries backoff w)) = calls w @ replicate 1 req"
        by (simp add: fetchWithRetry_exhausted [OF Inl])
      then show ?thesis by (intro exI [of _ 1]) simp
    qed
  qed
qed

lemma fetchWithRetry_always_failing:
  "(\<And>n. attempt (net e n req) = Inl err) \<Longrightarrow> fst (fetchWithRetry e req r b w) = Inl err"
proof (induction e req r b w rule: fetchWithRetry.induct)
  case (1 e req retries backoff w)
  have a: "attempt (net e (length (calls w)) req) = Inl err" by (rule "1.prems")
  show ?case
  proof (cases "0 < retries")
    case True
    have "fetch e req w = (net e (length (calls w)) req, w\<lparr>calls := calls w @ [req]\<rparr>)"
      by (simp add: fetch_def)
    from "1.IH" [OF this [symmetric] a True "1.prems"]
    show ?thesis by (simp add: fetchWithRetry_retry [OF a True])
  next
    case False
    then show ?thesis by (simp add: fetchWithRetry_exhausted [OF a])
  qed
qed

lemma fetchWithRetry_default_store:
  "fetchWithRetry_default e req w = (r, w1) \<Longrightarrow>
   tree w1 = tree w \<and> fresh w1 = fresh w \<and> bookmark_ops w1 = bookmark_ops w \<and>
   syncStatus w1 = syncStatus w"
  using fetchWithRetry_store [of e req 3 1000 w] by (simp add: fetchWithRetry_default_def)

lemma fetchWithRetry_default_ok:
  "fetchWithRetry_default e req w = (Inr res, w1) \<Longrightarrow> ok res"
  using fetchWithRetry_Inr_ok [of e req 3 1000 w res] by (simp add: fetchWithRetry_default_def)

lemma scripted_net:
  "net (scripted cs) n req =
     (if n < length cs then Resolved \<lparr>status = cs ! n, json = Bookmarks []\<rparr> else Rejected)"
  by (simp add: scripted_def)

lemma serving_fetch:
  "fetchWithRetry_default (serving body) req w =
     (Inr \<lparr>status = 200, json = body\<rparr>, w\<lparr>calls := calls w @ [req]\<rparr>)"
  by (simp add: fetchWithRetry_default_def fetchWithRetry_ok serving_def attempt_def ok_def)

lemma offline_fetch:
  "fetchWithRetry_default offline req w =
     (Inl NetworkFailure, snd (fetchWithRetry_default offline req w))"
proof -
  have "fst (fetchWithRetry offline req 3 1000 w) = Inl NetworkFailure"
    by (rule fetchWithRetry_always_failing) (simp add: offline_def attempt_def)
  then show ?thesis
    by (simp add: fetchWithRetry_default_def prod_eq_iff)
qed

text \<open>
  C3. The specification asks that a response with a status in [400,500) other than 429
  makes the transport fail at once, with no further fetch and no wait. The code throws
  \<open>Client error\<close> inside its own \<open>try\<close> block, so the \<open>catch\<close> retries it like any other
  failure. With the default parameters, a 404 followed by a 200 is answered by a second
  fetch after a wait of 1000 ms and the call returns the 200 response; four 404 in a row
  cost four fetches and waits of 1000, 2000 and 4000 ms before the client error is
  raised.
\<close>

theorem client_error_404_is_retried:
  "fst (fetchWithRetry_default (scripted [404, 200]) get_request empty_world)
     = Inr \<lparr>status = 200, json = Bookmarks []\<rparr> \<and>
   calls (snd (fetchWithRetry_default (scripted [404, 200]) get_request empty_world))
     = [get_request, get_request] \<and>
   timeouts (snd (fetchWithRetry_default (scripted [404, 200]) get_request empty_world))
     = [1000] \<and>
   fst (fetchWithRetry_default (scripted [404, 404, 404, 404]) get_request empty_world)
     = Inl (ClientError 404) \<and>
   length (calls (snd (fetchWithRetry_default (scripted [404, 404, 404, 404])
      get_request empty_world))) = 4 \<and>
   timeouts (snd (fetchWithRetry_default (scripted [404, 404, 404, 404])
      get_request empty_world)) = [1000, 2000, 4000]"
  by (simp add: fetchWithRetry_default_def fetchWithRetry.simps fetch_def scripted_net
      attempt_def ok_def setTimeout_def console_add_def empty_world_def)

text \<open>
  C4. When an attempt fails (in particular with a retryable failure: a 5xx, a 429 or a
  rejected fetch) and retries remain, the transport waits exactly \<open>backoff\<close> milliseconds
  and then behaves as the call with \<open>retries - 1\<close> and \<open>backoff * 2\<close>. With the default
  parameters, two 503 followed by a successful response give waits of 1000 and 2000 ms
  (3000 ms in total) and the successful response is returned; four failures in a row
  give the waits 1000, 2000, 4000 and the last error is raised.
\<close>

theorem retry_waits_backoff_then_doubles:
  "(attempt (net e (length (calls w)) req) = Inl err \<and> 0 < retries \<longrightarrow>
      fetchWithRetry e req retries backoff w =
        fetchWithRetry e req (retries - 1) (backoff * 2)
          (setTimeout backoff
             (console_add (RetryWarning backoff retries err) (snd (fetch e req w))))
      \<and> timeouts (setTimeout backoff
             (console_add (RetryWarning backoff retries err) (snd (fetch e req w))))
          = timeouts w @ [backoff])
   \<and> (status r1 = 503 \<and> status r2 = 503 \<and> ok r3 \<and>
        net e (length (calls w)) req = Resolved r1 \<and>
        net e (length (calls w) + 1) req = Resolved r2 \<and>
        net e (length (calls w) + 2) req = Resolved r3 \<longrightarrow>
        fst (fetchWithRetry_default e req w) = Inr r3 \<and>
        timeouts (snd (fetchWithRetry_default e req w)) = timeouts w @ [1000, 2000] \<and>
        sum_list (timeouts (snd (fetchWithRetry_default e req w)))
          = sum_list (timeouts w) + (1000 + 2000))
   \<and> (attempt (net e (length (calls w)) req) = Inl e0 \<and>
        attempt (net e (length (calls w) + 1) req) = Inl e1 \<and>
        attempt (net e (length (calls w) + 2) req) = Inl e2 \<and>
        attempt (net e (length (calls w) + 3) req) = Inl e3 \<longrightarrow>
        fst (fetchWithRetry_default e req w) = Inl e3 \<and>
        timeouts (snd (fetchWithRetry_default e req w)) = timeouts w @ [1000, 2000, 4000])"
proof (intro conjI impI)
  assume a: "attempt (net e (length (calls w)) req) = Inl err \<and> 0 < retries"
  then show "fetchWithRetry e req retries backoff w =
        fetchWithRetry e req (retries - 1) (backoff * 2)
          (setTimeout backoff
             (console_add (RetryWarning backoff retries err) (snd (fetch e req w))))"
    using fetchWithRetry_retry [of e w req err retries backoff] by (simp add: fetch_def)
  show "timeouts (setTimeout backoff
             (console_add (RetryWarning backoff retries err) (snd (fetch e req w))))
          = timeouts w @ [backoff]"
    by (simp add: setTimeout_def console_add_def fetch_def)
next
  assume a: "status r1 = 503 \<and> status r2 = 503 \<and> ok r3 \<and>
        net e (length (calls w)) req = Resolved r1 \<and>
        net e (length (calls w) + 1) req = Resolved r2 \<and>
        net e (length (calls w) + 2) req = Resolved r3"
  define w1 where "w1 = setTimeout 1000
     (console_add (RetryWarning 1000 3 (ServerReturned 503)) (w\<lparr>calls := calls w @ [req]\<rparr>))"
  define w2 where "w2 = setTimeout 2000
     (console_add (RetryWarning 2000 2 (ServerReturned 503)) (w1\<lparr>calls := calls w1 @ [req]\<rparr>))"
  have c1: "length (calls w1) = length (calls w) + 1"
    by (simp add: w1_def setTimeout_def console_add_def)
  have c2: "length (calls w2) = length (calls w) + 2"
    by (simp add: w2_def c1 setTimeout_def console_add_def)
  have s1: "fetchWithRetry e req 3 1000 w = fetchWithRetry e req 2 2000 w1"
    using a fetchWithRetry_retry [of e w req "ServerReturned 503" 3 1000]
    by (simp add: attempt_503 w1_def)
  have s2: "fetchWithRetry e req 2 2000 w1 = fetchWithRetry e req 1 4000 w2"
    using a fetchWithRetry_retry [of e w1 req "ServerReturned 503" 2 2000]
    by (simp add: attempt_503 w2_def c1)
  have s3: "fetchWithRetry e req 1 4000 w2 = (Inr r3, w2\<lparr>calls := calls w2 @ [req]\<rparr>)"
    using a fetchWithRetry_ok [of e w2 req r3 1 4000] by (simp add: attempt_ok c2)
  have r: "fetchWithRetry_default e req w = (Inr r3, w2\<lparr>calls := calls w2 @ [req]\<rparr>)"
    by (simp add: fetchWithRetry_default_def s1 s2 s3)
  have t: "timeouts w2 = timeouts w @ [1000, 2000]"
    by (simp add: w2_def w1_def setTimeout_def console_add_def)
  show "fst (fetchWithRetry_default e req w) = Inr r3" by (simp add: r)
  show "timeouts (snd (fetchWithRetry_default e req w)) = timeouts w @ [1000, 2000]"
    by (simp add: r t)
  show "sum_list (timeouts (snd (fetchWithRetry_default e req w)))
          = sum_list (timeouts w) + (1000 + 2000)"
    by (simp add: r t)
next
  assume a: "attempt (net e (length (calls w)) req) = Inl e0 \<and>
        attempt (net e (length (calls w) + 1) req) = Inl e1 \<and>
        attempt (net e (length (calls w) + 2) req) = Inl e2 \<and>
        attempt (net e (length (calls w) + 3) req) = Inl e3"
  define w1 where "w1 = setTimeout 1000
     (console_add (RetryWarning 1000 3 e0) (w\<lparr>calls := calls w @ [req]\<rparr>))"
  define w2 where "w2 = setTimeout 2000
     (console_add (RetryWarning 2000 2 e1) (w1\<lparr>calls := calls w1 @ [req]\<rparr>))"
  define w3 where "w3 = setTimeout 4000
     (console_add (RetryWarning 4000 1 e2) (w2\<lparr>calls := calls w2 @ [req]\<rparr>))"
  have c1: "length (calls w1) = length (calls w) + 1"
    by (simp add: w1_def setTimeout_def console_add_def)
  have c2: "length (calls w2) = length (calls w) + 2"
    by (simp add: w2_def c1 setTimeout_def console_add_def)
  have c3: "length (calls w3) = length (calls w) + 3"
    by (simp add: w3_def c2 setTimeout_def console_add_def)
  have s1: "fetchWithRetry e req 3 1000 w = fetchWithRetry e req 2 2000 w1"
    using a fetchWithRetry_retry [of e w req e0 3 1000] by (simp add: w1_def)
  have s2: "fetchWithRetry e req 2 2000 w1 = fetchWithRetry e req 1 4000 w2"
    using a fetchWithRetry_retry [of e w1 req e1 2 2000] by (simp add: w2_def c1)
  have s3: "fetchWithRetry e req 1 4000 w2 = fetchWithRetry e req 0 8000 w3"
    using a fetchWithRetry_retry [of e w2 req e2 1 4000] by (simp add: w3_def c2)
  have s4: "fetchWithRetry e req 0 8000 w3 = (Inl e3, w3\<lparr>calls := calls w3 @ [req]\<rparr>)"
    using a fetchWithRetry_exhausted [of e w3 req e3 0 8000] by (simp add: c3)
  have r: "fetchWithRetry_default e req w = (Inl e3, w3\<lparr>calls := calls w3 @ [req]\<rparr>)"
    by (simp add: fetchWithRetry_default_def s1 s2 s3 s4)
  have t: "timeouts w3 = timeouts w @ [1000, 2000, 4000]"
    by (simp add: w3_def w2_def w1_def setTimeout_def console_add_def)
  show "fst (fetchWithRetry_default e req w) = Inl e3"
    by (simp add: r)
  show "timeouts (snd (fetchWithRetry_default e req w)) = timeouts w @ [1000, 2000, 4000]"
    by (simp add: r t)
qed

theorem retry_waits_backoff_then_doubles_witness:
  "fst (fetchWithRetry_default (scripted [503, 503, 200]) get_request empty_world)
     = Inr \<lparr>status = 200, json = Bookmarks []\<rparr>
   \<and> timeouts (snd (fetchWithRetry_default (scripted [503, 503, 200]) get_request empty_world))
     = [1000, 2000]
   \<and> timeouts (snd (fetchWithRetry_default (scripted [500, 429, 503, 502])
        get_request empty_world)) = [1000, 2000, 4000]
   \<and> fetchWithRetry (scripted [503, 200]) get_request 1 250 empty_world
     = fetchWithRetry (scripted [503, 200]) get_request 0 500
        (setTimeout 250 (console_add (RetryWarning 250 1 (ServerReturned 503))
           (snd (fetch (scripted [503, 200]) get_request empty_world))))"
proof -
  have e: "calls empty_world = []" "timeouts empty_world = []"
    by (simp_all add: empty_world_def)
  show ?thesis
    using retry_waits_backoff_then_doubles
      [of "scripted [503, 503, 200]" empty_world get_request "ServerReturned 503" 3 1000
          "\<lparr>status = 503, json = Bookmarks []\<rparr>" "\<lparr>status = 503, json = Bookmarks []\<rparr>"
          "\<lparr>status = 200, json = Bookmarks []\<rparr>"]
      retry_waits_backoff_then_doubles
      [of "scripted [500, 429, 503, 502]" empty_world get_request "ServerReturned 500" 3 1000
          _ _ _ "ServerReturned 500" "ServerReturned 429" "ServerReturned 503"
          "ServerReturned 502"]
      retry_waits_backoff_then_doubles
      [of "scripted [503, 200]" empty_world get_request "ServerReturned 503" 1 250]
    by (simp add: e scripted_net attempt_def ok_def)
qed

section \<open>The local store and Mirror: facts\<close>

lemma create_loop_effect:
  "create_loop S bms w =
     w\<lparr>tree := tree w @ created (fresh w) [bm \<leftarrow> bms. Some (url bm) \<notin> S],
       fresh := fresh w + length [bm \<leftarrow> bms. Some (url bm) \<notin> S],
       bookmark_ops := bookmark_ops w @
         map (\<lambda>bm. Create (or_else (title bm) (url bm)) (url bm)) [bm \<leftarrow> bms. Some (url bm) \<notin> S]\<rparr>"
  by (induction S bms w rule: create_loop.induct) (simp_all add: bookmarks_create_def)

lemma add_loop_create_loop:
  "add_loop S bms (c, w) = (c + length [bm \<leftarrow> bms. Some (url bm) \<notin> S], create_loop S bms w)"
  by (induction S bms "(c, w)" arbitrary: c w rule: add_loop.induct) simp_all

lemma remove_loop_effect:
  "remove_loop B ns w =
     w\<lparr>tree := fold remove_nodes (map node_id [n \<leftarrow> ns. node_url n \<notin> B]) (tree w),
       bookmark_ops := bookmark_ops w @ map (\<lambda>n. Remove (node_id n)) [n \<leftarrow> ns. node_url n \<notin> B]\<rparr>"
  by (induction B ns w rule: remove_loop.induct) (simp_all add: bookmarks_remove_def)

lemma leaf_ids_remove:
  "node_id n \<noteq> i \<longrightarrow>
     node_id ` set (traverseNode (remove_node i n)) \<subseteq> node_id ` set (traverseNode n) - {i}"
  "node_id ` set (traverseNodes (remove_nodes i ns)) \<subseteq> node_id ` set (traverseNodes ns) - {i}"
proof (induction i n and i ns rule: remove_node_remove_nodes.induct)
  case (1 i j t u c)
  show ?case
  proof (cases c)
    case None
    then show ?thesis by auto
  next
    case (Some cs)
    have a: "node_id ` set (traverseNode (remove_node i (Node j t u c))) =
        (if truthy u then {j} else {}) \<union> node_id ` set (traverseNodes (remove_nodes i cs))"
      by (simp add: Some image_Un)
    have b: "node_id ` set (traverseNode (Node j t u c)) =
        (if truthy u then {j} else {}) \<union> node_id ` set (traverseNodes cs)"
      by (simp add: Some image_Un)
    have c: "node_id (Node j t u c) = j" by simp
    from "1" [OF Some] show ?thesis unfolding a b c by (cases "truthy u") auto
  qed
next
  case (2 i)
  show ?case by simp
next
  case (3 i n ns)
  show ?case
  proof (cases "node_id n = i")
    case True
    with "3.IH"(1) show ?thesis by auto
  next
    case False
    with "3.IH"(2,3) show ?thesis by auto
  qed
qed

lemma leaf_ids_fold_remove:
  "node_id ` set (traverseNodes (fold remove_nodes is t)) \<subseteq> node_id ` set (traverseNodes t) - set is"
proof (induction "is" arbitrary: t)
  case Nil
  then show ?case by simp
next
  case (Cons i "is")
  from Cons [of "remove_nodes i t"] leaf_ids_remove(2) [of i t]
  show ?case by auto
qed

lemma remove_all_leaves:
  "traverseNodes (fold remove_nodes (map node_id (traverseNodes t)) t) = []"
  using leaf_ids_fold_remove [of "map node_id (traverseNodes t)" t] by simp

lemma autoSync_try_failed:
  "resolve e ''/bookmarks/sync'' (backendUrl st) = Some u \<Longrightarrow>
   fetchWithRetry_default e (sync_request u (autoSync_headers st)) w = (Inl err, w1) \<Longrightarrow>
   autoSync_try e st w = (Inl err, w1)"
  by (simp add: autoSync_try_def)

lemma autoSync_try_applied:
  assumes "resolve e ''/bookmarks/sync'' (backendUrl st) = Some u"
    and "fetchWithRetry_default e (sync_request u (autoSync_headers st)) w = (Inr res, w1)"
    and "json res = Bookmarks bms"
  shows "autoSync_try e st w =
     (Inr (), console_add AutoSyncCompleted
        (remove_loop (set (map (\<lambda>b. Some (url b)) bms)) (traverseNodes (tree w))
           (create_loop (set (map node_url (traverseNodes (tree w)))) bms w1)))"
  using assms fetchWithRetry_default_ok [OF assms(2)] fetchWithRetry_default_store [OF assms(2)]
  by (simp add: autoSync_try_def getTree_def Let_def)

text \<open>
  C1. A Mirror run whose remote fetch fails (the transport raises after its retries,
  whatever the last error: a rejected fetch, a 5xx, a 4xx) leaves the local store as it
  was: the tree and the id counter are unchanged and no \<open>create\<close> or \<open>remove\<close> is issued.
  When the guard of the run holds, the run ends in the \<open>catch\<close> block, which only logs
  the error.
\<close>

theorem mirror_fail_closed:
  assumes "resolve e ''/bookmarks/sync'' (backendUrl st) = Some u"
    and "fetchWithRetry_default e (sync_request u (autoSync_headers st)) w = (Inl err, w1)"
  shows "tree (performAutoSync e st w) = tree w \<and>
         bookmark_ops (performAutoSync e st w) = bookmark_ops w \<and>
         fresh (performAutoSync e st w) = fresh w \<and>
         (autoSync st \<and> truthy (backendUrl st) \<and> has_bookmarks e \<longrightarrow>
            performAutoSync e st w = console_add (AutoSyncFailed err) w1)"
  using fetchWithRetry_default_store [OF assms(2)]
  by (simp add: performAutoSync_def autoSync_try_failed [OF assms] console_add_def)

theorem mirror_fail_closed_witness:
  "tree (performAutoSync offline base_settings local_world) = tree local_world \<and>
   bookmark_ops (performAutoSync offline base_settings local_world) = [] \<and>
   last (console (performAutoSync offline base_settings local_world))
     = AutoSyncFailed NetworkFailure"
proof -
  have r: "resolve offline ''/bookmarks/sync'' (backendUrl base_settings)
      = Some ''http://localhost:3000/bookmarks/sync''"
    by (simp add: resolve_def offline_def base_settings_def)
  have g: "autoSync base_settings \<and> truthy (backendUrl base_settings) \<and> has_bookmarks offline"
    by (simp add: base_settings_def truthy_def offline_def)
  have b: "bookmark_ops local_world = []"
    by (simp add: local_world_def empty_world_def)
  note t = mirror_fail_closed [OF r offline_fetch [of _ local_world]]
  from t g have "performAutoSync offline base_settings local_world =
      console_add (AutoSyncFailed NetworkFailure)
        (snd (fetchWithRetry_default offline
           (sync_request ''http://localhost:3000/bookmarks/sync''
              (autoSync_headers base_settings)) local_world))"
    by blast
  then have "last (console (performAutoSync offline base_settings local_world))
     = AutoSyncFailed NetworkFailure"
    by (simp add: console_add_def)
  with t b show ?thesis by simp
qed

text \<open>
  C2. For every remote collection and every local tree, the URLs of the records to
  create locally and the URLs of the leaves to delete locally are disjoint. The plan is
  what the code carries out: a Mirror run whose fetch returns the collection issues the
  creates of \<open>toCreateLocally\<close> and then the removes of \<open>toDeleteLocally\<close>, and nothing
  else.
\<close>

theorem mirror_plan_disjoint:
  "set (map (\<lambda>bm. Some (url bm)) (toCreateLocally bms t)) \<inter>
     set (map node_url (toDeleteLocally bms t)) = {} \<and>
   (autoSync st \<and> truthy (backendUrl st) \<and> has_bookmarks e \<and>
    resolve e ''/bookmarks/sync'' (backendUrl st) = Some u \<and>
    fetchWithRetry_default e (sync_request u (autoSync_headers st)) w = (Inr res, w1) \<and>
    json res = Bookmarks bms \<longrightarrow>
      bookmark_ops (performAutoSync e st w) =
        bookmark_ops w @
        map (\<lambda>bm. Create (or_else (title bm) (url bm)) (url bm)) (toCreateLocally bms (tree w)) @
        map (\<lambda>n. Remove (node_id n)) (toDeleteLocally bms (tree w)))"
proof (intro conjI impI)
  show "set (map (\<lambda>bm. Some (url bm)) (toCreateLocally bms t)) \<inter>
     set (map node_url (toDeleteLocally bms t)) = {}"
    by (auto simp: toCreateLocally_def toDeleteLocally_def)
next
  assume a: "autoSync st \<and> truthy (backendUrl st) \<and> has_bookmarks e \<and>
    resolve e ''/bookmarks/sync'' (backendUrl st) = Some u \<and>
    fetchWithRetry_default e (sync_request u (autoSync_headers st)) w = (Inr res, w1) \<and>
    json res = Bookmarks bms"
  then have f: "fetchWithRetry_default e (sync_request u (autoSync_headers st)) w = (Inr res, w1)"
    by simp
  have "autoSync_try e st w =
     (Inr (), console_add AutoSyncCompleted
        (remove_loop (set (map (\<lambda>b. Some (url b)) bms)) (traverseNodes (tree w))
           (create_loop (set (map node_url (traverseNodes (tree w)))) bms w1)))"
    using a autoSync_try_applied [of e st u w res w1 bms] by simp
  then show "bookmark_ops (performAutoSync e st w) =
        bookmark_ops w @
        map (\<lambda>bm. Create (or_else (title bm) (url bm)) (url bm)) (toCreateLocally bms (tree w)) @
        map (\<lambda>n. Remove (node_id n)) (toDeleteLocally bms (tree w))"
    using a fetchWithRetry_default_store [OF f]
    by (simp add: performAutoSync_def console_add_def remove_loop_effect create_loop_effect
        toCreateLocally_def toDeleteLocally_def)
qed

lemma local_world_leaves:
  "traverseNodes (tree local_world) =
     [Node 3 ''Y'' (Some ''http://y'') None, Node 4 ''Z'' (Some ''http://z'') None]"
  by (simp add: local_world_def empty_world_def truthy_def)

theorem mirror_plan_disjoint_witness:
  "toCreateLocally remote_xy (tree local_world) = [\<lparr>url = ''http://x'', title = None\<rparr>] \<and>
   toDeleteLocally remote_xy (tree local_world) = [Node 4 ''Z'' (Some ''http://z'') None] \<and>
   bookmark_ops (performAutoSync (serving (Bookmarks remote_xy)) base_settings local_world) =
     [Create ''http://x'' ''http://x'', Remove 4]"
proof -
  have c: "toCreateLocally remote_xy (tree local_world) = [\<lparr>url = ''http://x'', title = None\<rparr>]"
    by (simp add: toCreateLocally_def local_world_leaves remote_xy_def)
  have d: "toDeleteLocally remote_xy (tree local_world) = [Node 4 ''Z'' (Some ''http://z'') None]"
    by (simp add: toDeleteLocally_def local_world_leaves remote_xy_def)
  have g: "autoSync base_settings \<and> truthy (backendUrl base_settings) \<and>
      has_bookmarks (serving (Bookmarks remote_xy))"
    by (simp add: base_settings_def truthy_def serving_def)
  have r: "resolve (serving (Bookmarks remote_xy)) ''/bookmarks/sync'' (backendUrl base_settings)
      = Some ''http://localhost:3000/bookmarks/sync''"
    by (simp add: resolve_def serving_def base_settings_def)
  have b: "bookmark_ops local_world = []"
    by (simp add: local_world_def empty_world_def)
  from mirror_plan_disjoint [of remote_xy "tree local_world" base_settings
      "serving (Bookmarks remote_xy)" "''http://localhost:3000/bookmarks/sync''" local_world
      "\<lparr>status = 200, json = Bookmarks remote_xy\<rparr>"] g r serving_fetch
  show ?thesis by (simp add: c d b or_else_def)
qed

text \<open>
  C10. A Mirror run whose fetch succeeds with an empty array does not stop early: it
  issues a \<open>remove\<close> for every leaf of the local tree, after which the tree has no leaf
  left, and logs completion. Only a null body ends the run before the tree is read, with
  nothing changed or logged.
\<close>

theorem mirror_empty_remote_deletes_all:
  assumes "autoSync st" and "truthy (backendUrl st)" and "has_bookmarks e"
    and "resolve e ''/bookmarks/sync'' (backendUrl st) = Some u"
    and "fetchWithRetry_default e (sync_request u (autoSync_headers st)) w = (Inr res, w1)"
  shows "(json res = Bookmarks [] \<longrightarrow>
            bookmark_ops (performAutoSync e st w) =
              bookmark_ops w @ map (\<lambda>n. Remove (node_id n)) (traverseNodes (tree w)) \<and>
            traverseNodes (tree (performAutoSync e st w)) = [] \<and>
            console (performAutoSync e st w) = console w1 @ [AutoSyncCompleted]) \<and>
         (json res = Null \<longrightarrow> performAutoSync e st w = w1)"
proof (intro conjI impI)
  assume j: "json res = Bookmarks []"
  have t: "autoSync_try e st w =
     (Inr (), console_add AutoSyncCompleted
        (remove_loop {} (traverseNodes (tree w)) w1))"
    using autoSync_try_applied [OF assms(4,5) j] by simp
  have p: "performAutoSync e st w =
      console_add AutoSyncCompleted (remove_loop {} (traverseNodes (tree w)) w1)"
    using assms(1-3) by (simp add: performAutoSync_def t)
  note s = fetchWithRetry_default_store [OF assms(5)]
  show "bookmark_ops (performAutoSync e st w) =
      bookmark_ops w @ map (\<lambda>n. Remove (node_id n)) (traverseNodes (tree w))"
    by (simp add: p console_add_def remove_loop_effect s)
  show "traverseNodes (tree (performAutoSync e st w)) = []"
    using remove_all_leaves [of "tree w"]
    by (simp add: p console_add_def remove_loop_effect s)
  show "console (performAutoSync e st w) = console w1 @ [AutoSyncCompleted]"
    by (simp add: p console_add_def remove_loop_effect)
next
  assume j: "json res = Null"
  have "autoSync_try e st w = (Inr (), w1)"
    using assms(4,5) fetchWithRetry_default_ok [OF assms(5)] j
    by (simp add: autoSync_try_def)
  then show "performAutoSync e st w = w1"
    using assms(1-3) by (simp add: performAutoSync_def)
qed

theorem mirror_empty_remote_deletes_all_witness:
  "bookmark_ops (performAutoSync (serving (Bookmarks [])) base_settings local_world)
     = [Remove 3, Remove 4] \<and>
   traverseNodes (tree (performAutoSync (serving (Bookmarks [])) base_settings local_world)) = [] \<and>
   tree (performAutoSync (serving Null) base_settings local_world) = tree local_world"
proof -
  have g: "autoSync base_settings" "truthy (backendUrl base_settings)"
      "has_bookmarks (serving body)" for body
    by (simp_all add: base_settings_def truthy_def serving_def)
  have r: "resolve (serving body) ''/bookmarks/sync'' (backendUrl base_settings)
      = Some ''http://localhost:3000/bookmarks/sync''" for body
    by (simp add: resolve_def serving_def base_settings_def)
  have b: "bookmark_ops local_world = []"
    by (simp add: local_world_def empty_world_def)
  from mirror_empty_remote_deletes_all [OF g r serving_fetch, of "Bookmarks []" local_world]
       mirror_empty_remote_deletes_all [OF g r serving_fetch, of Null local_world]
  show ?thesis by (simp add: local_world_leaves b)
qed

section \<open>Pull-Merge: facts\<close>

lemma traverseNodes_append: "traverseNodes (xs @ ys) = traverseNodes xs @ traverseNodes ys"
  by (induction xs) simp_all

lemma traverseNodes_created:
  "(\<forall>bm\<in>set xs. url bm \<noteq> []) \<Longrightarrow> traverseNodes (created i xs) = created i xs"
  by (induction xs arbitrary: i) (simp_all add: truthy_def)

lemma node_url_created: "map node_url (created i xs) = map (\<lambda>bm. Some (url bm)) xs"
  by (induction xs arbitrary: i) simp_all

lemma syncToNative_applied:
  assumes "truthy (backendUrl st)" and "has_bookmarks e"
    and "resolve e ''/bookmarks/sync'' (backendUrl st) = Some u"
    and "fetchWithRetry_default e (sync_request u (buildHeaders st False)) w = (Inr res, w1)"
    and "json res = Bookmarks bms"
  shows "tree (syncToNative e st w) =
           tree w @ created (fresh w)
             [bm \<leftarrow> bms. Some (url bm) \<notin> set (map node_url (traverseNodes (tree w)))]"
    and "bookmark_ops (syncToNative e st w) =
           bookmark_ops w @ map (\<lambda>bm. Create (or_else (title bm) (url bm)) (url bm))
             [bm \<leftarrow> bms. Some (url bm) \<notin> set (map node_url (traverseNodes (tree w)))]"
proof -
  note s = fetchWithRetry_default_store [OF assms(4)]
  note k = fetchWithRetry_default_ok [OF assms(4)]
  show "tree (syncToNative e st w) =
           tree w @ created (fresh w)
             [bm \<leftarrow> bms. Some (url bm) \<notin> set (map node_url (traverseNodes (tree w)))]"
    using assms s k
    by (cases bms)
       (simp_all add: syncToNative_def syncToNative_try_def getTree_def showSyncStatus_def
          add_loop_create_loop create_loop_effect Let_def del: add_loop.simps create_loop.simps)
  show "bookmark_ops (syncToNative e st w) =
           bookmark_ops w @ map (\<lambda>bm. Create (or_else (title bm) (url bm)) (url bm))
             [bm \<leftarrow> bms. Some (url bm) \<notin> set (map node_url (traverseNodes (tree w)))]"
    using assms s k
    by (cases bms)
       (simp_all add: syncToNative_def syncToNative_try_def getTree_def showSyncStatus_def
          add_loop_create_loop create_loop_effect Let_def del: add_loop.simps create_loop.simps)
qed

text \<open>
  C5 (as amended). For every remote collection and local tree, a Pull-Merge run whose
  fetch returns the collection issues one \<open>create\<close> for each remote record whose URL is
  not the URL of a local leaf, titled with the remote title or, when that is empty or
  missing, with the URL. It issues no \<open>remove\<close>, and the tree after the run is the old
  tree followed by the new leaves. If moreover every remote record has a non-empty URL,
  a second run that is served the same collection changes neither the tree nor the
  list of store operations.
\<close>

theorem pull_merge_creates_missing:
  assumes "truthy (backendUrl st)" and "has_bookmarks e"
    and "resolve e ''/bookmarks/sync'' (backendUrl st) = Some u"
    and "fetchWithRetry_default e (sync_request u (buildHeaders st False)) w = (Inr res, w1)"
    and "json res = Bookmarks bms"
  shows "bookmark_ops (syncToNative e st w) =
           bookmark_ops w @ map (\<lambda>bm. Create (or_else (title bm) (url bm)) (url bm))
             [bm \<leftarrow> bms. Some (url bm) \<notin> set (map node_url (traverseNodes (tree w)))] \<and>
         tree (syncToNative e st w) =
           tree w @ created (fresh w)
             [bm \<leftarrow> bms. Some (url bm) \<notin> set (map node_url (traverseNodes (tree w)))] \<and>
         ((\<forall>bm\<in>set bms. url bm \<noteq> []) \<and>
          fetchWithRetry_default e (sync_request u (buildHeaders st False)) (syncToNative e st w)
            = (Inr res', w2) \<and>
          json res' = Bookmarks bms \<longrightarrow>
            tree (syncToNative e st (syncToNative e st w)) = tree (syncToNative e st w) \<and>
            bookmark_ops (syncToNative e st (syncToNative e st w))
              = bookmark_ops (syncToNative e st w))"
proof (intro conjI impI)
  let ?new = "[bm \<leftarrow> bms. Some (url bm) \<notin> set (map node_url (traverseNodes (tree w)))]"
  show t1: "tree (syncToNative e st w) = tree w @ created (fresh w) ?new"
    by (rule syncToNative_applied(1) [OF assms])
  show "bookmark_ops (syncToNative e st w) =
      bookmark_ops w @ map (\<lambda>bm. Create (or_else (title bm) (url bm)) (url bm)) ?new"
    by (rule syncToNative_applied(2) [OF assms])
  assume a: "(\<forall>bm\<in>set bms. url bm \<noteq> []) \<and>
      fetchWithRetry_default e (sync_request u (buildHeaders st False)) (syncToNative e st w)
        = (Inr res', w2) \<and>
      json res' = Bookmarks bms"
  then have f2: "fetchWithRetry_default e (sync_request u (buildHeaders st False))
      (syncToNative e st w) = (Inr res', w2)" and j2: "json res' = Bookmarks bms"
    and ne: "\<forall>bm\<in>set bms. url bm \<noteq> []"
    by simp_all
  have "\<forall>bm\<in>set ?new. url bm \<noteq> []" using ne by simp
  then have tr: "traverseNodes (tree (syncToNative e st w)) =
      traverseNodes (tree w) @ created (fresh w) ?new"
    by (simp only: t1 traverseNodes_append traverseNodes_created)
  have all_known: "[bm \<leftarrow> bms. Some (url bm) \<notin>
      set (map node_url (traverseNodes (tree (syncToNative e st w))))] = []"
    unfolding tr by (auto simp: filter_empty_conv node_url_created)
  show "tree (syncToNative e st (syncToNative e st w)) = tree (syncToNative e st w)"
    using syncToNative_applied(1) [OF assms(1-3) f2 j2] by (simp only: all_known) simp
  show "bookmark_ops (syncToNative e st (syncToNative e st w))
      = bookmark_ops (syncToNative e st w)"
    using syncToNative_applied(2) [OF assms(1-3) f2 j2] by (simp only: all_known) simp
qed

lemma serving_base:
  "truthy (backendUrl base_settings)" "has_bookmarks (serving body)"
  "resolve (serving body) path (backendUrl base_settings) = Some (''http://localhost:3000'' @ path)"
  by (simp_all add: base_settings_def truthy_def serving_def resolve_def)

text \<open>
  C5 as stated, for every remote collection, fails on a record with an empty URL: the
  walk emits a node only when its \<open>url\<close> is truthy, so the leaf created for such a record
  is never found again and every further run creates it once more.
\<close>

theorem pull_merge_empty_url_counterexample:
  "tree (syncToNative (serving (Bookmarks nameless_remote)) base_settings empty_world)
     = [Node 0 ''t'' (Some []) None] \<and>
   tree (syncToNative (serving (Bookmarks nameless_remote)) base_settings
          (syncToNative (serving (Bookmarks nameless_remote)) base_settings empty_world))
     = [Node 0 ''t'' (Some []) None, Node 1 ''t'' (Some []) None]"
  by (simp add: syncToNative_def syncToNative_try_def serving_base serving_fetch ok_def
      nameless_remote_def getTree_def showSyncStatus_def bookmarks_create_def empty_world_def
      truthy_def [of "Some []"] or_else_def)

theorem pull_merge_creates_missing_witness:
  "bookmark_ops (syncToNative (serving (Bookmarks remote_xy)) base_settings local_world)
     = [Create ''http://x'' ''http://x''] \<and>
   tree (syncToNative (serving (Bookmarks remote_xy)) base_settings local_world)
     = tree local_world @ [Node 5 ''http://x'' (Some ''http://x'') None] \<and>
   tree (syncToNative (serving (Bookmarks remote_xy)) base_settings
          (syncToNative (serving (Bookmarks remote_xy)) base_settings local_world))
     = tree (syncToNative (serving (Bookmarks remote_xy)) base_settings local_world)"
proof -
  define w' where "w' = syncToNative (serving (Bookmarks remote_xy)) base_settings local_world"
  define rq where "rq = sync_request (''http://localhost:3000'' @ ''/bookmarks/sync'')
      (buildHeaders base_settings False)"
  have b: "bookmark_ops local_world = []" "fresh local_world = 5"
    by (simp_all add: local_world_def empty_world_def)
  have n: "\<forall>bm\<in>set remote_xy. url bm \<noteq> []"
    by (simp add: remote_xy_def)
  have f: "[bm \<leftarrow> remote_xy. Some (url bm) \<notin> set (map node_url (traverseNodes (tree local_world)))]
      = [\<lparr>url = ''http://x'', title = None\<rparr>]"
    by (simp add: local_world_leaves remote_xy_def)
  have j: "json \<lparr>status = 200, json = Bookmarks remote_xy\<rparr> = Bookmarks remote_xy"
    by simp
  have s: "fetchWithRetry_default (serving (Bookmarks remote_xy)) rq w'
      = (Inr \<lparr>status = 200, json = Bookmarks remote_xy\<rparr>, w'\<lparr>calls := calls w' @ [rq]\<rparr>)"
    by (rule serving_fetch)
  from pull_merge_creates_missing [OF serving_base(1) serving_base(2) serving_base(3)
      serving_fetch j, where w = local_world
      and res' = "\<lparr>status = 200, json = Bookmarks remote_xy\<rparr>"
      and ?w2.0 = "w'\<lparr>calls := calls w' @ [rq]\<rparr>", unfolded f b] n s
  show ?thesis
    by (simp add: or_else_def w'_def rq_def)
qed

section \<open>Push: facts\<close>

lemma fetchWithRetry_default_calls:
  "\<exists>k. 1 \<le> k \<and> k \<le> 4 \<and>
       calls (snd (fetchWithRetry_default e req w)) = calls w @ replicate k req"
  using fetchWithRetry_calls [of 3 e req 1000 w] by (simp add: fetchWithRetry_default_def)

text \<open>One step of the loop, whatever the outcome of the upsert.\<close>

lemma import_loop_step:
  assumes "resolve e ''/bookmarks'' (backendUrl st) = Some u"
    and "fetchWithRetry_default e (upsert_request u st bm) w = (r, w1)"
  shows "import_loop e st (bm # bms) (s, f, w) =
     import_loop e st bms
       (if (case r of Inr res \<Rightarrow> ok res | Inl err \<Rightarrow> False) then (s + 1, f, w1)
        else (s, f + 1, w1))"
  using assms by (cases r) simp_all



lemma import_loop_calls:
  assumes "resolve e ''/bookmarks'' (backendUrl st) = Some u"
  shows "\<exists>ks. length ks = length bms \<and> (\<forall>k\<in>set ks. 1 \<le> k \<and> k \<le> 4) \<and>
     calls (snd (snd (import_loop e st bms (s, f, w)))) =
       calls w @ concat (map2 replicate ks (map (upsert_request u st) bms))"
proof (induction bms arbitrary: s f w)
  case Nil
  then show ?case by simp
next
  case (Cons bm bms)
  obtain r w1 where r: "fetchWithRetry_default e (upsert_request u st bm) w = (r, w1)"
    by (cases "fetchWithRetry_default e (upsert_request u st bm) w")
  obtain k where k: "1 \<le> k" "k \<le> 4" "calls w1 = calls w @ replicate k (upsert_request u st bm)"
    using fetchWithRetry_default_calls [of e "upsert_request u st bm" w] by (auto simp: r)
  define acc where "acc = (if (case r of Inr res \<Rightarrow> ok res | Inl err \<Rightarrow> False)
      then (s + 1, f, w1) else (s, f + 1, w1))"
  obtain s' f' where acc: "acc = (s', f', w1)"
    by (cases "case r of Inr res \<Rightarrow> ok res | Inl err \<Rightarrow> False") (simp_all add: acc_def)
  from Cons [of s' f' w1] obtain ks where ks: "length ks = length bms"
      "\<forall>k\<in>set ks. 1 \<le> k \<and> k \<le> 4"
      "calls (snd (snd (import_loop e st bms (s', f', w1)))) =
         calls w1 @ concat (map2 replicate ks (map (upsert_request u st) bms))"
    by blast
  have "import_loop e st (bm # bms) (s, f, w) = import_loop e st bms (s', f', w1)"
    using import_loop_step [OF assms r, of bms s f] acc by (simp add: acc_def)
  then have "calls (snd (snd (import_loop e st (bm # bms) (s, f, w)))) =
      calls w @ concat (map2 replicate (k # ks) (map (upsert_request u st) (bm # bms)))"
    using ks(3) k(3) by simp
  moreover have "length (k # ks) = length (bm # bms)" using ks(1) by simp
  moreover have "\<forall>k\<in>set (k # ks). 1 \<le> k \<and> k \<le> 4" using ks(2) k(1,2) by simp
  ultimately show ?case by blast
qed





section \<open>Unset backend URL: facts\<close>

text \<open>
  C8 (as amended). When \<open>backendUrl\<close> is unset (absent or empty), Push and Pull-Merge
  return at once with the status "Please set the backend URL first." shown as an error,
  and Mirror returns at once with nothing shown or logged. None of the three issues a
  fetch or waits for a retry: the world is otherwise unchanged.
\<close>

theorem unset_backendUrl_aborts:
  "\<not> truthy (backendUrl st) \<longrightarrow>
     importBookmarks e st w = w\<lparr>syncStatus := syncStatus w @ [(SetBackendUrlFirst, True)]\<rparr> \<and>
     syncToNative e st w = w\<lparr>syncStatus := syncStatus w @ [(SetBackendUrlFirst, True)]\<rparr> \<and>
     performAutoSync e st w = w \<and>
     calls (importBookmarks e st w) = calls w \<and> timeouts (importBookmarks e st w) = timeouts w \<and>
     calls (syncToNative e st w) = calls w \<and> timeouts (syncToNative e st w) = timeouts w \<and>
     calls (performAutoSync e st w) = calls w \<and> timeouts (performAutoSync e st w) = timeouts w"
proof (intro impI)
  assume unset: "\<not> truthy (backendUrl st)"
  have push: "importBookmarks e st w = showSyncStatus SetBackendUrlFirst True w"
    using unset by (simp add: importBookmarks_def)
  have pull: "syncToNative e st w = showSyncStatus SetBackendUrlFirst True w"
    using unset by (simp add: syncToNative_def)
  have mirror: "performAutoSync e st w = w"
    using unset by (simp add: performAutoSync_def)
  show "importBookmarks e st w = w\<lparr>syncStatus := syncStatus w @ [(SetBackendUrlFirst, True)]\<rparr> \<and>
     syncToNative e st w = w\<lparr>syncStatus := syncStatus w @ [(SetBackendUrlFirst, True)]\<rparr> \<and>
     performAutoSync e st w = w \<and>
     calls (importBookmarks e st w) = calls w \<and> timeouts (importBookmarks e st w) = timeouts w \<and>
     calls (syncToNative e st w) = calls w \<and> timeouts (syncToNative e st w) = timeouts w \<and>
     calls (performAutoSync e st w) = calls w \<and> timeouts (performAutoSync e st w) = timeouts w"
    unfolding push pull mirror by (simp add: showSyncStatus_def)
qed

theorem unset_backendUrl_aborts_witness:
  "syncStatus (importBookmarks offline unset_settings local_world) = [(SetBackendUrlFirst, True)] \<and>
   syncStatus (syncToNative offline unset_settings local_world) = [(SetBackendUrlFirst, True)] \<and>
   calls (importBookmarks offline unset_settings local_world) = [] \<and>
   calls (syncToNative offline unset_settings local_world) = [] \<and>
   performAutoSync offline unset_settings local_world = local_world \<and>
   performAutoSync offline (base_settings\<lparr>backendUrl := Some []\<rparr>) local_world = local_world"
proof -
  have u: "\<not> truthy (backendUrl unset_settings)"
    "\<not> truthy (backendUrl (base_settings\<lparr>backendUrl := Some []\<rparr>))"
    by (simp_all add: unset_settings_def truthy_def)
  have l: "syncStatus local_world = []" "calls local_world = []"
    by (simp_all add: local_world_def empty_world_def)
  from unset_backendUrl_aborts [of unset_settings offline local_world]
       unset_backendUrl_aborts [of "base_settings\<lparr>backendUrl := Some []\<rparr>" offline local_world]
       u
  show ?thesis by (simp add: l)
qed

text \<open>
  C8 as stated asks every policy to report a user-visible message. Mirror with an unset
  \<open>backendUrl\<close> returns from its first line: nothing is shown and the console stays
  empty.
\<close>

theorem mirror_unset_backendUrl_silent_counterexample:
  "syncStatus (performAutoSync offline unset_settings local_world) = [] \<and>
   console (performAutoSync offline unset_settings local_world) = []"
  by (simp add: performAutoSync_def unset_settings_def truthy_def local_world_def empty_world_def)

section \<open>Request headers: facts\<close>

lemma fold_add_header:
  "fold add_header hs m =
     m ++ map_of (rev (map (\<lambda>h. (key h, hvalue h)) [h \<leftarrow> hs. settable (key h)]))"
proof (induction hs arbitrary: m)
  case Nil
  then show ?case by simp
next
  case (Cons h hs)
  show ?case
  proof (cases "settable (key h)")
    case False
    then have "add_header h m = m"
      by (auto simp: add_header_def set_property_def settable_def)
    with Cons False show ?thesis by simp
  next
    case True
    let ?t = "map_of (rev (map (\<lambda>h. (key h, hvalue h)) [h \<leftarrow> hs. settable (key h)]))"
    have "add_header h m = m(key h \<mapsto> hvalue h)"
      using True by (simp add: add_header_def set_property_def settable_def)
    then have "fold add_header (h # hs) m = fold add_header hs (m(key h \<mapsto> hvalue h))"
      by simp
    also have "\<dots> = m(key h \<mapsto> hvalue h) ++ ?t"
      by (rule Cons)
    also have "\<dots> =
        m ++ map_of (rev (map (\<lambda>h. (key h, hvalue h)) [h \<leftarrow> h # hs. settable (key h)]))"
      using True by (auto simp: fun_eq_iff map_add_def split: option.splits)
    finally show ?thesis .
  qed
qed

lemma table_last_wins:
  "i < length hs \<Longrightarrow> settable (key (hs ! i)) \<Longrightarrow>
   (\<forall>j < length hs. i < j \<longrightarrow> key (hs ! j) \<noteq> key (hs ! i)) \<Longrightarrow>
   map_of (rev (map (\<lambda>h. (key h, hvalue h)) [h \<leftarrow> hs. settable (key h)])) (key (hs ! i))
     = Some (hvalue (hs ! i))"
proof (induction hs rule: rev_induct)
  case Nil
  then show ?case by simp
next
  case (snoc x xs)
  show ?case
  proof (cases "i < length xs")
    case True
    have later: "\<forall>j < length xs. i < j \<longrightarrow> key (xs ! j) \<noteq> key (xs ! i)"
    proof (intro allI impI)
      fix j assume j: "j < length xs" "i < j"
      with snoc.prems(3) have "key ((xs @ [x]) ! j) \<noteq> key ((xs @ [x]) ! i)" by simp
      with j True show "key (xs ! j) \<noteq> key (xs ! i)" by (simp add: nth_append)
    qed
    have "key ((xs @ [x]) ! length xs) \<noteq> key ((xs @ [x]) ! i)"
      using snoc.prems(3) [rule_format, of "length xs"] True by simp
    then have x: "key x \<noteq> key (xs ! i)" using True by (simp add: nth_append)
    from snoc.IH [OF True] snoc.prems(2) later True
    have "map_of (rev (map (\<lambda>h. (key h, hvalue h)) [h \<leftarrow> xs. settable (key h)]))
        (key (xs ! i)) = Some (hvalue (xs ! i))"
      by (simp add: nth_append)
    with x True show ?thesis by (simp add: nth_append)
  next
    case False
    with snoc.prems(1) have "i = length xs" by simp
    with snoc.prems(2) show ?thesis by simp
  qed
qed

lemma table_absent:
  "k \<notin> key ` set hs \<or> \<not> settable k \<Longrightarrow>
   map_of (rev (map (\<lambda>h. (key h, hvalue h)) [h \<leftarrow> hs. settable (key h)])) k = None"
  by (simp add: map_of_eq_None_iff image_image) auto

lemma buildHeaders_table:
  "buildHeaders st isJson =
     [''Authorization'' \<mapsto> ''Bearer '' @ or_else (apiKey st) '''',
      (if isJson then ''Content-Type'' else ''Accept'') \<mapsto> ''application/json'']
     ++ extra_table st"
  by (cases "extraHeaders st")
     (simp_all add: buildHeaders_def extra_table_def extras_def fold_add_header Let_def
        set_property_def)

lemma create_loop_calls: "calls (create_loop S bms w) = calls w"
  by (simp add: create_loop_effect)

lemma remove_loop_calls: "calls (remove_loop B ns w) = calls w"
  by (simp add: remove_loop_effect)

lemma new_calls_replicate:
  "calls w1 = calls w @ replicate k req \<Longrightarrow> r \<in> set (calls w1) \<Longrightarrow>
   r \<in> set (calls w) \<or> r = req"
  by auto

lemma performAutoSync_new_calls:
  assumes "r \<in> set (calls (performAutoSync e st w))"
  shows "r \<in> set (calls w) \<or> req_headers r = autoSync_headers st"
proof (cases "resolve e ''/bookmarks/sync'' (backendUrl st)")
  case None
  with assms show ?thesis
    by (simp add: performAutoSync_def autoSync_try_def console_add_def split: if_splits)
next
  case (Some u)
  let ?req = "sync_request u (autoSync_headers st)"
  obtain x w1 where f: "fetchWithRetry_default e ?req w = (x, w1)"
    by (cases "fetchWithRetry_default e ?req w")
  obtain k where k: "calls w1 = calls w @ replicate k ?req"
    using fetchWithRetry_default_calls [of e ?req w] by (auto simp: f)
  have "calls (performAutoSync e st w) = calls w \<or> calls (performAutoSync e st w) = calls w1"
    by (auto simp: performAutoSync_def autoSync_try_def Some f console_add_def Let_def
        create_loop_calls remove_loop_calls split: sum.splits payload.splits)
  with assms new_calls_replicate [OF k, of r] show ?thesis
    by (auto simp: sync_request_def)
qed

lemma add_loop_calls: "calls (snd (add_loop S bms (c, w))) = calls w"
  by (simp add: add_loop_create_loop create_loop_calls)

lemma syncToNative_new_calls:
  assumes "r \<in> set (calls (syncToNative e st w))"
  shows "r \<in> set (calls w) \<or> req_headers r = buildHeaders st False"
proof (cases "resolve e ''/bookmarks/sync'' (backendUrl st)")
  case None
  with assms show ?thesis
    by (simp add: syncToNative_def syncToNative_try_def console_add_def showSyncStatus_def
        split: if_splits)
next
  case (Some u)
  let ?req = "sync_request u (buildHeaders st False)"
  obtain x w1 where f: "fetchWithRetry_default e ?req w = (x, w1)"
    by (cases "fetchWithRetry_default e ?req w")
  obtain k where k: "calls w1 = calls w @ replicate k ?req"
    using fetchWithRetry_default_calls [of e ?req w] by (auto simp: f)
  have "calls (syncToNative e st w) = calls w \<or> calls (syncToNative e st w) = calls w1"
    by (auto simp: syncToNative_def syncToNative_try_def Some f console_add_def Let_def
        showSyncStatus_def add_loop_create_loop create_loop_calls
        split: sum.splits payload.splits simp del: add_loop.simps)
  with assms new_calls_replicate [OF k, of r] show ?thesis
    by (auto simp: sync_request_def)
qed

lemma import_loop_unresolved:
  "resolve e ''/bookmarks'' (backendUrl st) = None \<Longrightarrow>
   calls (snd (snd (import_loop e st bms (s, f, w)))) = calls w"
  by (induction bms arbitrary: s f w) simp_all

lemma importBookmarks_new_calls:
  assumes "r \<in> set (calls (importBookmarks e st w))"
  shows "r \<in> set (calls w) \<or> req_headers r = buildHeaders st True"
proof (cases "resolve e ''/bookmarks'' (backendUrl st)")
  case None
  have "calls (importBookmarks e st w) = calls w"
    using import_loop_unresolved [OF None, of "traverseNodes (tree w)" 0 0 w]
    by (auto simp: importBookmarks_def showSyncStatus_def getTree_def Let_def split: prod.splits)
  with assms show ?thesis by simp
next
  case (Some u)
  obtain ks where ks:
    "calls (snd (snd (import_loop e st (traverseNodes (tree w)) (0, 0, w)))) =
       calls w @ concat (map2 replicate ks (map (upsert_request u st) (traverseNodes (tree w))))"
    using import_loop_calls [OF Some, of "traverseNodes (tree w)" 0 0 w] by blast
  have "calls (importBookmarks e st w) = calls w \<or>
      calls (importBookmarks e st w) =
        calls (snd (snd (import_loop e st (traverseNodes (tree w)) (0, 0, w))))"
    by (auto simp: importBookmarks_def showSyncStatus_def getTree_def Let_def split: prod.splits)
  with assms ks have "r \<in> set (calls w) \<or>
      r \<in> set (concat (map2 replicate ks (map (upsert_request u st) (traverseNodes (tree w)))))"
    by auto
  then show ?thesis
    by (auto simp: upsert_request_def dest!: set_zip_rightD)
qed

text \<open>
  C9 (as amended). For every settings snapshot, the headers of a call are the fixed headers
  overridden by the configured extra headers whose key is non-empty and not \<open>__proto__\<close>,
  a later extra header overriding an earlier one with the same key. The fixed headers are
  \<open>Authorization: Bearer <apiKey>\<close> and, for a call built with \<open>isJson\<close> false (the fetch of
  the collection by Pull-Merge and by Mirror), \<open>Accept: application/json\<close>, for a call built
  with \<open>isJson\<close> true (the upserts of Push), \<open>Content-Type: application/json\<close>. So a call
  carries \<open>Authorization: Bearer <apiKey>\<close>, \<open>Accept\<close> or \<open>Content-Type\<close> unless an extra
  header of that name is configured, and it carries every extra header with a non-empty
  key other than \<open>__proto__\<close> that is not configured again later in the list. An extra
  header with the key \<open>__proto__\<close> is never carried: the assignment to that key of the
  headers object sets no property. Every fetch issued by Mirror, Pull-Merge and Push
  carries the headers so built.
\<close>

theorem headers_are_fixed_then_extras:
  "buildHeaders st isJson =
     [''Authorization'' \<mapsto> ''Bearer '' @ or_else (apiKey st) '''',
      (if isJson then ''Content-Type'' else ''Accept'') \<mapsto> ''application/json'']
     ++ extra_table st \<and>
   autoSync_headers st = buildHeaders st False \<and>
   (\<forall>r\<in>set (calls (performAutoSync e st w)).
      r \<in> set (calls w) \<or> req_headers r = buildHeaders st False) \<and>
   (\<forall>r\<in>set (calls (syncToNative e st w)).
      r \<in> set (calls w) \<or> req_headers r = buildHeaders st False) \<and>
   (\<forall>r\<in>set (calls (importBookmarks e st w)).
      r \<in> set (calls w) \<or> req_headers r = buildHeaders st True) \<and>
   (''Authorization'' \<notin> key ` set (extras st) \<longrightarrow>
      buildHeaders st isJson ''Authorization'' = Some (''Bearer '' @ or_else (apiKey st) '''')) \<and>
   (''Accept'' \<notin> key ` set (extras st) \<longrightarrow>
      buildHeaders st False ''Accept'' = Some ''application/json'') \<and>
   (''Content-Type'' \<notin> key ` set (extras st) \<longrightarrow>
      buildHeaders st True ''Content-Type'' = Some ''application/json'') \<and>
   (\<forall>i < length (extras st).
      key (extras st ! i) \<noteq> [] \<and> key (extras st ! i) \<noteq> ''__proto__'' \<and>
      (\<forall>j < length (extras st). i < j \<longrightarrow> key (extras st ! j) \<noteq> key (extras st ! i)) \<longrightarrow>
      buildHeaders st isJson (key (extras st ! i)) = Some (hvalue (extras st ! i))) \<and>
   buildHeaders st isJson ''__proto__'' = None \<and>
   buildHeaders st isJson [] = None"
proof (intro conjI allI impI ballI)
  show "buildHeaders st isJson =
     [''Authorization'' \<mapsto> ''Bearer '' @ or_else (apiKey st) '''',
      (if isJson then ''Content-Type'' else ''Accept'') \<mapsto> ''application/json'']
     ++ extra_table st"
    by (rule buildHeaders_table)
  show a: "autoSync_headers st = buildHeaders st False"
    by (simp add: autoSync_headers_def buildHeaders_def Let_def set_property_def)
  show "r \<in> set (calls w) \<or> req_headers r = buildHeaders st False"
    if "r \<in> set (calls (performAutoSync e st w))" for r
    using performAutoSync_new_calls [OF that] by (simp add: a)
  show "r \<in> set (calls w) \<or> req_headers r = buildHeaders st False"
    if "r \<in> set (calls (syncToNative e st w))" for r
    using that by (rule syncToNative_new_calls)
  show "r \<in> set (calls w) \<or> req_headers r = buildHeaders st True"
    if "r \<in> set (calls (importBookmarks e st w))" for r
    using that by (rule importBookmarks_new_calls)
  have "extra_table st ''__proto__'' = None"
    unfolding extra_table_def by (rule table_absent) (simp add: settable_def)
  then show "buildHeaders st isJson ''__proto__'' = None"
    by (simp add: buildHeaders_table map_add_def)
  have "extra_table st [] = None"
    unfolding extra_table_def by (rule table_absent) (simp add: settable_def)
  then show "buildHeaders st isJson [] = None"
    by (simp add: buildHeaders_table map_add_def)
next
  assume "''Authorization'' \<notin> key ` set (extras st)"
  then have "extra_table st ''Authorization'' = None"
    unfolding extra_table_def by (intro table_absent) simp
  then show "buildHeaders st isJson ''Authorization''
      = Some (''Bearer '' @ or_else (apiKey st) '''')"
    by (simp add: buildHeaders_table map_add_def)
next
  assume "''Accept'' \<notin> key ` set (extras st)"
  then have "extra_table st ''Accept'' = None"
    unfolding extra_table_def by (intro table_absent) simp
  then show "buildHeaders st False ''Accept'' = Some ''application/json''"
    by (simp add: buildHeaders_table map_add_def)
next
  assume "''Content-Type'' \<notin> key ` set (extras st)"
  then have "extra_table st ''Content-Type'' = None"
    unfolding extra_table_def by (intro table_absent) simp
  then show "buildHeaders st True ''Content-Type'' = Some ''application/json''"
    by (simp add: buildHeaders_table map_add_def)
next
  fix i
  assume i: "i < length (extras st)"
    and a: "key (extras st ! i) \<noteq> [] \<and> key (extras st ! i) \<noteq> ''__proto__'' \<and>
      (\<forall>j < length (extras st). i < j \<longrightarrow> key (extras st ! j) \<noteq> key (extras st ! i))"
  then have "extra_table st (key (extras st ! i)) = Some (hvalue (extras st ! i))"
    unfolding extra_table_def by (intro table_last_wins) (simp_all add: settable_def)
  then show "buildHeaders st isJson (key (extras st ! i)) = Some (hvalue (extras st ! i))"
    by (simp add: buildHeaders_table map_add_def)
qed

text \<open>
  C9 as stated fails when an extra header is named like a fixed one or like an earlier
  extra header, or is named \<open>__proto__\<close>: with the extra headers \<open>Authorization: Basic abc\<close>,
  \<open>X-Trace: 1\<close>, \<open>X-Trace: 2\<close> and \<open>__proto__: dropped\<close> and the API key \<open>k\<close>, a call carries
  \<open>Authorization: Basic abc\<close>, not \<open>Bearer k\<close>, \<open>X-Trace: 2\<close> only, and no header
  \<open>__proto__\<close>. It also fails for the write calls that are built with \<open>isJson\<close> false: the
  \<open>DELETE\<close> and the reprocess \<open>POST\<close> carry \<open>Accept\<close> and no \<open>Content-Type\<close>.
\<close>

theorem authorization_overridden_counterexample:
  "buildHeaders override_settings False ''Authorization'' = Some ''Basic abc'' \<and>
   buildHeaders override_settings False ''Authorization'' \<noteq> Some ''Bearer k'' \<and>
   autoSync_headers override_settings ''Authorization'' = Some ''Basic abc'' \<and>
   buildHeaders override_settings True ''X-Trace'' = Some ''2'' \<and>
   buildHeaders override_settings False ''__proto__'' = None \<and>
   autoSync_headers override_settings ''__proto__'' = None \<and>
   req_headers (delete_request ''http://localhost:3000/bookmarks?url=u'' base_settings)
     ''Content-Type'' = None \<and>
   req_headers (reprocess_request ''http://localhost:3000/admin/bookmarks/1/reprocess''
     base_settings) ''Content-Type'' = None"
  by (simp add: buildHeaders_def autoSync_headers_def override_settings_def base_settings_def
      add_header_def set_property_def or_else_def delete_request_def reprocess_request_def)

theorem headers_are_fixed_then_extras_witness:
  "buildHeaders base_settings False ''Authorization'' = Some ''Bearer k'' \<and>
   buildHeaders base_settings False ''Accept'' = Some ''application/json'' \<and>
   buildHeaders base_settings True ''Content-Type'' = Some ''application/json'' \<and>
   buildHeaders override_settings True ''Content-Type'' = Some ''application/json'' \<and>
   buildHeaders override_settings True ''X-Trace'' = Some ''2'' \<and>
   buildHeaders override_settings True ''Authorization'' = Some ''Basic abc'' \<and>
   buildHeaders override_settings True ''__proto__'' = None \<and>
   req_headers (hd (calls (performAutoSync offline base_settings empty_world)))
     = buildHeaders base_settings False"
proof -
  note calls = headers_are_fixed_then_extras
    [THEN conjunct2, THEN conjunct2, THEN conjunct1, rule_format]
  note auth = headers_are_fixed_then_extras
    [THEN conjunct2, THEN conjunct2, THEN conjunct2, THEN conjunct2, THEN conjunct2,
     THEN conjunct1]
  note accept = headers_are_fixed_then_extras
    [THEN conjunct2, THEN conjunct2, THEN conjunct2, THEN conjunct2, THEN conjunct2,
     THEN conjunct2, THEN conjunct1]
  note ctype = headers_are_fixed_then_extras
    [THEN conjunct2, THEN conjunct2, THEN conjunct2, THEN conjunct2, THEN conjunct2,
     THEN conjunct2, THEN conjunct2, THEN conjunct1]
  note extra = headers_are_fixed_then_extras
    [THEN conjunct2, THEN conjunct2, THEN conjunct2, THEN conjunct2, THEN conjunct2,
     THEN conjunct2, THEN conjunct2, THEN conjunct2, THEN conjunct1, rule_format]
  note proto = headers_are_fixed_then_extras
    [THEN conjunct2, THEN conjunct2, THEN conjunct2, THEN conjunct2, THEN conjunct2,
     THEN conjunct2, THEN conjunct2, THEN conjunct2, THEN conjunct2, THEN conjunct1]
  have b: "extras base_settings = []" "apiKey base_settings = Some ''k''"
    by (simp_all add: extras_def base_settings_def)
  have o: "extras override_settings =
     [\<lparr>key = ''Authorization'', hvalue = ''Basic abc''\<rparr>, \<lparr>key = ''X-Trace'', hvalue = ''1''\<rparr>,
      \<lparr>key = [], hvalue = ''ignored''\<rparr>, \<lparr>key = ''X-Trace'', hvalue = ''2''\<rparr>,
      \<lparr>key = ''__proto__'', hvalue = ''dropped''\<rparr>]"
    by (simp add: extras_def override_settings_def)
  have 1: "buildHeaders base_settings False ''Authorization'' = Some ''Bearer k''"
    using auth [of base_settings False] by (simp add: b or_else_def)
  have 2: "buildHeaders base_settings False ''Accept'' = Some ''application/json''"
    using accept [of base_settings] by (simp add: b)
  have 3: "buildHeaders base_settings True ''Content-Type'' = Some ''application/json''"
    using ctype [of base_settings] by (simp add: b)
  have 4: "buildHeaders override_settings True ''Content-Type'' = Some ''application/json''"
    using ctype [of override_settings] by (simp add: o)
  have 5: "buildHeaders override_settings True ''X-Trace'' = Some ''2''"
    using extra [of 3 override_settings True] by (simp add: o less_Suc_eq numeral_eq_Suc)
  have 6: "buildHeaders override_settings True ''Authorization'' = Some ''Basic abc''"
    using extra [of 0 override_settings True] by (simp add: o less_Suc_eq numeral_eq_Suc)
  have 7: "buildHeaders override_settings True ''__proto__'' = None"
    by (rule proto)
  have c: "calls (performAutoSync offline base_settings empty_world) \<noteq> []"
    by (simp add: performAutoSync_def autoSync_try_def base_settings_def truthy_def offline_def
        resolve_def fetchWithRetry_default_def fetchWithRetry.simps fetch_def attempt_def
        setTimeout_def console_add_def empty_world_def)
  have "hd (calls (performAutoSync offline base_settings empty_world))
      \<in> set (calls (performAutoSync offline base_settings empty_world))"
    using c by simp
  from calls [OF this]
  have 8: "req_headers (hd (calls (performAutoSync offline base_settings empty_world)))
     = buildHeaders base_settings False"
    by (simp add: empty_world_def)
  from 1 2 3 4 5 6 7 8 show ?thesis by simp
qed

section \<open>Scheduler: facts\<close>

text \<open>
  C7 (as amended). When the interval fires while an earlier Mirror pass is still in
  flight, and \<open>autoSync\<close> and \<open>backendUrl\<close> are set and the bookmarks API is present, the
  tick starts one more Mirror pass: it is neither dropped nor queued, so the number of
  passes in flight grows by one whatever it was, and so does it on \<open>startSync\<close>. What the
  scheduler keeps single is the timer: \<open>startSync\<close> clears the registered interval before
  it registers the new one, and \<open>stopSync\<close> clears it and leaves the passes in flight
  alone.
\<close>

theorem tick_starts_another_pass:
  "(autoSync st \<and> truthy (backendUrl st) \<and> has_bookmarks e \<and> h \<in> set (intervals s) \<longrightarrow>
      in_flight (tick e st h s) = Suc (in_flight s) \<and>
      intervals (tick e st h s) = intervals s \<and>
      syncIntervalId (tick e st h s) = syncIntervalId s) \<and>
   (autoSync st \<and> truthy (backendUrl st) \<and> has_bookmarks e \<longrightarrow>
      in_flight (startSync e st s) = Suc (in_flight s)) \<and>
   (single_timer s \<longrightarrow>
      single_timer (startSync e st s) \<and>
      intervals (startSync e st s) = [next_handle s] \<and>
      syncIntervalId (startSync e st s) = Some (next_handle s) \<and>
      single_timer (stopSync s) \<and>
      intervals (stopSync s) = [] \<and>
      in_flight (stopSync s) = in_flight s)"
  by (auto simp: tick_def performAutoSync_call_def startSync_def stopSync_def setInterval_def
      clear_current_def clearInterval_def single_timer_def split: option.splits)

text \<open>
  C7 as stated asks that a tick during a pass in flight is dropped. From the idle
  scheduler, \<open>startSync\<close> registers interval 1 and starts a pass; when interval 1 fires
  before that pass has finished, a second pass is in flight.
\<close>

theorem tick_not_coalesced_counterexample:
  "in_flight (startSync (serving Null) base_settings idle) = 1 \<and>
   intervals (startSync (serving Null) base_settings idle) = [1] \<and>
   in_flight (tick (serving Null) base_settings 1 (startSync (serving Null) base_settings idle)) = 2"
  by (simp add: tick_def performAutoSync_call_def startSync_def setInterval_def
      clear_current_def idle_def serving_def base_settings_def truthy_def)

theorem tick_starts_another_pass_witness:
  "in_flight (tick (serving Null) base_settings 1 busy) = 2 \<and>
   intervals (startSync (serving Null) base_settings busy) = [2] \<and>
   in_flight (startSync (serving Null) base_settings busy) = 2 \<and>
   intervals (stopSync busy) = []"
proof -
  have g: "autoSync base_settings \<and> truthy (backendUrl base_settings) \<and>
      has_bookmarks (serving Null)"
    by (simp add: base_settings_def truthy_def serving_def)
  have s: "single_timer busy" "in_flight busy = 1" "intervals busy = [1]" "next_handle busy = 2"
    by (simp_all add: single_timer_def busy_def)
  from tick_starts_another_pass [of base_settings "serving Null" 1 busy] g s
  show ?thesis by simp
qed

end
